theory Spec2Isabelle
  imports Complex_Main "HOL-Library.Multiset"
begin

section \<open>Data model (types.go)\<close>

text \<open>
  The Go structs of \<^verbatim>\<open>types.go\<close> become records with the same field names.
  \<^verbatim>\<open>float64\<close> fields are modelled by the real number they denote (finite values only);
  the places where the source divides are written out with their zero-divisor cases.
  The decimal rendering done by \<^verbatim>\<open>fmt.Sprintf\<close> (\<^verbatim>\<open>%.3f\<close>, \<^verbatim>\<open>%.6f\<close>) is not
  modelled: a command or filter carries the value handed to the formatter.
\<close>

record ScriptScene =
  Index :: int
  TimestampStart :: real
  TimestampEnd :: real
  Narration :: string
  SceneType :: string
  Mood :: string
  ImagePrompt :: string
  AssetTags :: "string list"
  ProofImageURL :: string
  ProofImageLocal :: string
  ProofDurationSec :: real
  AudioFile :: string
  AudioDurationSec :: real
  VisualFile :: string
  SFXFile :: string

record Story =
  ID :: string
  Title :: string
  Body :: string
  Source :: string
  SourceURL :: string
  Score :: int
  PublishedAt :: string
  ImageURLs :: "string list"
  Keywords :: "string list"

section \<open>Clip selection (asset\_manager.go)\<close>

subsection \<open>strings.ToLower\<close>

text \<open>
  \<^verbatim>\<open>strings.ToLower\<close> on the ASCII letters; other bytes are left as they are.
\<close>

definition toLowerChar :: "char \<Rightarrow> char" where
  "toLowerChar c =
     (case map_of (zip ''ABCDEFGHIJKLMNOPQRSTUVWXYZ'' ''abcdefghijklmnopqrstuvwxyz'') c of
        Some l \<Rightarrow> l
      | None \<Rightarrow> c)"

definition ToLower :: "string \<Rightarrow> string" where
  "ToLower s = map toLowerChar s"

subsection \<open>matchScore\<close>

text \<open>
  \<^verbatim>\<open>clipTagSet\<close> is a \<^verbatim>\<open>map[string]bool\<close> that only ever stores \<^verbatim>\<open>true\<close>: a set.
  Both loops of the source are folds over the slices.
\<close>

definition clipTagSet :: "string list \<Rightarrow> string set" where
  "clipTagSet clipTags = foldl (\<lambda>m t. insert (ToLower t) m) {} clipTags"

definition matchScore :: "string list \<Rightarrow> string list \<Rightarrow> string \<Rightarrow> int" where
  "matchScore required clipTags mood =
     (let tagSet = clipTagSet clipTags;
          score = foldl (\<lambda>sc req. if ToLower req \<in> tagSet then sc + 10 else sc) 0 required
      in if ToLower mood \<in> tagSet then score + 15 else score)"

subsection \<open>sortScored\<close>

record scored =
  s_file :: string
  s_score :: int

text \<open>
  \<^verbatim>\<open>sortScored\<close> is an insertion sort on the slice: element \<^verbatim>\<open>s[i]\<close> is swapped with
  its left neighbour while its score is strictly greater. \<open>bubble x p\<close> does the inner
  loop on the already processed prefix, held in reverse (nearest neighbour first);
  the outer loop is the fold.
\<close>

fun bubble :: "scored \<Rightarrow> scored list \<Rightarrow> scored list" where
  "bubble x [] = [x]"
| "bubble x (y # ys) = (if s_score x > s_score y then y # bubble x ys else x # y # ys)"

definition sortScored :: "scored list \<Rightarrow> scored list" where
  "sortScored s = rev (foldl (\<lambda>p x. bubble x p) [] s)"

subsection \<open>AssetManager.Pick\<close>

text \<open>
  \<^verbatim>\<open>tags\<close> is the map from file name to tags, held as an association list with
  distinct keys. Go visits a map in an unspecified order that may change between two
  loops, so each of the two \<^verbatim>\<open>range am.tags\<close> loops of \<^verbatim>\<open>Pick\<close> receives the order of
  its visit as an argument (\<open>order1\<close>, \<open>order2\<close>: the entries of \<open>tags\<close> in some order),
  and \<^verbatim>\<open>rand.Intn(topN)\<close> is \<open>rnd mod topN\<close> for an arbitrary \<open>rnd\<close>.
  \<^verbatim>\<open>usedInRun\<close> only stores \<^verbatim>\<open>true\<close>: a set. \<^verbatim>\<open>usageLog\<close> maps a run identifier to its
  slice, a missing key being the empty slice. \<^verbatim>\<open>filepath.Join\<close> is rendered without
  its path cleaning. Writing the ledger file (\<^verbatim>\<open>saveUsageLog\<close>) ignores every error
  and does not change the manager. Of the configuration the manager reads the asset
  directory only (\<open>assetsVideo\<close>).
\<close>

record AssetManager =
  assetsVideo :: string
  tags :: "(string \<times> string list) list"
  usageLog :: "string \<Rightarrow> string list"
  runID :: string
  usedInRun :: "string set"

datatype pick_error = NoVideoAssets | AllClipsUsed

definition filepath_Join :: "string \<Rightarrow> string \<Rightarrow> string" where
  "filepath_Join dir name = dir @ ''/'' @ name"

definition scoreCandidates ::
  "AssetManager \<Rightarrow> ScriptScene \<Rightarrow> (string \<times> string list) list \<Rightarrow> scored list" where
  "scoreCandidates am scene order1 =
     concat (map (\<lambda>(f, clipTags).
        if f \<in> usedInRun am then []
        else (let sc = matchScore (AssetTags scene) clipTags (Mood scene)
              in if sc \<ge> 0 then [\<lparr>s_file = f, s_score = sc\<rparr>] else [])) order1)"

definition unusedCandidates ::
  "AssetManager \<Rightarrow> (string \<times> string list) list \<Rightarrow> scored list" where
  "unusedCandidates am order2 =
     concat (map (\<lambda>(f, clipTags).
        if f \<in> usedInRun am then [] else [\<lparr>s_file = f, s_score = 0\<rparr>]) order2)"

definition candidatesOf ::
  "AssetManager \<Rightarrow> ScriptScene \<Rightarrow> (string \<times> string list) list
     \<Rightarrow> (string \<times> string list) list \<Rightarrow> scored list" where
  "candidatesOf am scene order1 order2 =
     (let candidates = scoreCandidates am scene order1
      in if candidates = [] then unusedCandidates am order2 else candidates)"

definition topN :: "scored list \<Rightarrow> nat" where
  "topN candidates = (if length candidates < 3 then length candidates else 3)"

definition markUsed :: "AssetManager \<Rightarrow> string \<Rightarrow> AssetManager" where
  "markUsed am f =
     am\<lparr>usedInRun := insert f (usedInRun am),
        usageLog := (usageLog am)(runID am := usageLog am (runID am) @ [f])\<rparr>"

definition Pick ::
  "AssetManager \<Rightarrow> ScriptScene \<Rightarrow> (string \<times> string list) list
     \<Rightarrow> (string \<times> string list) list \<Rightarrow> nat
     \<Rightarrow> pick_error + (string \<times> AssetManager)" where
  "Pick am scene order1 order2 rnd =
     (if tags am = [] then Inl NoVideoAssets
      else let candidates = candidatesOf am scene order1 order2
           in if candidates = [] then Inl AllClipsUsed
              else let pick = sortScored candidates ! (rnd mod topN candidates)
                   in Inr (filepath_Join (assetsVideo am) (s_file pick), markUsed am (s_file pick)))"

text \<open>
  A run is a sequence of calls of \<^verbatim>\<open>Pick\<close> on the same manager. A call that fails
  leaves the manager as it was.
\<close>

record pick_call =
  pc_scene :: ScriptScene
  pc_order1 :: "(string \<times> string list) list"
  pc_order2 :: "(string \<times> string list) list"
  pc_rnd :: nat

fun PickSeq ::
  "AssetManager \<Rightarrow> pick_call list \<Rightarrow> (pick_error + string) list \<times> AssetManager" where
  "PickSeq am [] = ([], am)"
| "PickSeq am (c # cs) =
     (case Pick am (pc_scene c) (pc_order1 c) (pc_order2 c) (pc_rnd c) of
        Inl e \<Rightarrow> (let (rs, am') = PickSeq am cs in (Inl e # rs, am'))
      | Inr (path, am1) \<Rightarrow> (let (rs, am') = PickSeq am1 cs in (Inr path # rs, am')))"

text \<open>The file names a run has added to the ledger of its run identifier.\<close>

definition pickedFiles :: "AssetManager \<Rightarrow> AssetManager \<Rightarrow> string list" where
  "pickedFiles am am' = drop (length (usageLog am (runID am))) (usageLog am' (runID am))"

section \<open>Numbers, formatting and the outside world\<close>

subsection \<open>float64 division and conversion to int\<close>

text \<open>
  A \<^verbatim>\<open>float64\<close> division does not panic on a zero divisor: it yields an infinity or
  NaN. The result type \<open>f64\<close> keeps these cases apart from the finite quotient, which is
  taken exactly. Converting a \<^verbatim>\<open>float64\<close> to \<^verbatim>\<open>int\<close> truncates toward zero; for a value
  that does not fit (infinities and NaN included) Go leaves the result to the
  implementation, and \<open>go_int\<close> gives the value of the amd64 port there.
\<close>

datatype f64 = Fin real | PosInf | NegInf | NaN

definition fdiv :: "real \<Rightarrow> real \<Rightarrow> f64" where
  "fdiv x y =
     (if y \<noteq> 0 then Fin (x / y)
      else if x > 0 then PosInf else if x < 0 then NegInf else NaN)"

definition trunc0 :: "real \<Rightarrow> int" where
  "trunc0 x = (if x \<ge> 0 then \<lfloor>x\<rfloor> else \<lceil>x\<rceil>)"

definition go_int :: "f64 \<Rightarrow> int" where
  "go_int v =
     (case v of
        Fin x \<Rightarrow> (if - (2 ^ 63) \<le> trunc0 x \<and> trunc0 x < 2 ^ 63 then trunc0 x else - (2 ^ 63))
      | _ \<Rightarrow> - (2 ^ 63))"

subsection \<open>Decimal rendering of integers\<close>

text \<open>\<^verbatim>\<open>%d\<close> and \<^verbatim>\<open>%03d\<close> of \<^verbatim>\<open>fmt.Sprintf\<close>.\<close>

definition digitChar :: "nat \<Rightarrow> char" where
  "digitChar d = ''0123456789'' ! (d mod 10)"

fun showNat :: "nat \<Rightarrow> string" where
  "showNat n = (if n < 10 then [digitChar n] else showNat (n div 10) @ [digitChar (n mod 10)])"

declare showNat.simps [simp del]

definition showInt :: "int \<Rightarrow> string" where
  "showInt i = (if i < 0 then CHR ''-'' # showNat (nat (- i)) else showNat (nat i))"

definition padZero :: "nat \<Rightarrow> string \<Rightarrow> string" where
  "padZero w s = replicate (w - length s) CHR ''0'' @ s"

definition fmt03d :: "int \<Rightarrow> string" where
  "fmt03d i =
     (if i < 0 then CHR ''-'' # padZero 2 (showNat (nat (- i))) else padZero 3 (showNat (nat i)))"

definition fmt02d :: "int \<Rightarrow> string" where
  "fmt02d i =
     (if i < 0 then CHR ''-'' # padZero 1 (showNat (nat (- i))) else padZero 2 (showNat (nat i)))"

subsection \<open>Configuration (config.VisualsConfig)\<close>

record VisualsConfig =
  FPS :: int
  ProofAnimationDurationSec :: real
  ProofHoldSecDefault :: real
  BackgroundDimDuringProof :: real
  KenBurnsZoomFactor :: real

subsection \<open>Filter expressions of the transcoding engine\<close>

text \<open>
  The source writes the overlay position, the brightness and the enable condition as
  text in the expression language of the engine. The model builds the same expressions
  as terms; \<open>evalx e t\<close> is the value of \<open>e\<close> at time \<open>t\<close>: \<^verbatim>\<open>lt\<close> and \<^verbatim>\<open>between\<close> yield 1 or
  0, \<^verbatim>\<open>between\<close> includes both ends, \<^verbatim>\<open>if\<close> evaluates only the branch it selects, and a
  division by zero has no finite value (\<open>None\<close>).
\<close>

datatype fexpr =
    Const real
  | Time
  | Plus fexpr fexpr
  | Minus fexpr fexpr
  | Times fexpr fexpr
  | Divide fexpr fexpr
  | Lt fexpr fexpr
  | Between fexpr fexpr fexpr
  | IfElse fexpr fexpr fexpr


subsection \<open>Subprocess commands\<close>

text \<open>
  Every invocation of the transcoding engine is a value of \<open>ffmpeg_cmd\<close> that keeps the
  arguments the source computes (inputs, duration, loop count, filter values, output).
\<close>

record zoom_filter =
  zf_step :: f64
  zf_max :: real
  zf_d :: int
  zf_fps :: int

record overlay_filter =
  of_brightness :: fexpr
  of_x :: fexpr
  of_y :: int
  of_enable :: fexpr

datatype ffmpeg_cmd =
    ClipTrim string real string
  | ClipLoop int string real string
  | KenBurns string zoom_filter real string
  | SourceCredit string string string
  | FallbackFrame string
  | ScaleProof string string
  | ProofOverlay string string overlay_filter string

subsection \<open>The outside world\<close>

text \<open>
  What the network, the file system and the subprocesses answer is not decided by the
  program: \<open>env\<close> holds these answers as functions. \<open>httpGet\<close> answers a GET of the
  evidence fetcher (\<open>None\<close>: the request failed), \<open>pollinationsGet\<close> the image generation
  endpoint at a given attempt, \<open>writeFile\<close> says whether \<^verbatim>\<open>os.WriteFile\<close> succeeds,
  \<open>ffmpeg\<close> whether a command exits with status 0, \<open>ffprobe\<close> the duration read by
  \<^verbatim>\<open>getVideoDuration\<close> (\<open>None\<close>: an error), \<open>mkdirAll\<close> whether \<^verbatim>\<open>os.MkdirAll\<close> succeeds.
  The JSON decoders and the URL escapers of the standard library are functions of \<open>env\<close>
  too. \<open>serpAPIKey\<close> is the field of \<^verbatim>\<open>ProofScraper\<close> read from the environment variable.
  \<open>mapOrder1 i\<close>, \<open>mapOrder2 i\<close> and \<open>randIntn i\<close> are the two visiting orders of the tag map
  and the random draw of the call of \<^verbatim>\<open>Pick\<close> made for the scene at position \<open>i\<close>.

  \<open>sys\<close> is the state the program changes outside its own variables: the files it has
  created, the requests it has sent and the commands it has run, in order. A command
  that exits with status 0 has written its output file.
\<close>

record http_response =
  status :: int
  body :: string

record env =
  httpGet :: "string \<Rightarrow> http_response option"
  pollinationsGet :: "string \<Rightarrow> nat \<Rightarrow> http_response option"
  writeFile :: "string \<Rightarrow> bool"
  ffmpeg :: "ffmpeg_cmd \<Rightarrow> bool"
  ffprobe :: "string \<Rightarrow> real option"
  decodeWiki :: "string \<Rightarrow> (string \<times> string) option"
  decodeSerp :: "string \<Rightarrow> string list option"
  pathEscape :: "string \<Rightarrow> string"
  queryEscape :: "string \<Rightarrow> string"
  serpAPIKey :: string
  mkdirAll :: "string \<Rightarrow> bool"
  mapOrder1 :: "nat \<Rightarrow> (string \<times> string list) list"
  mapOrder2 :: "nat \<Rightarrow> (string \<times> string list) list"
  randIntn :: "nat \<Rightarrow> nat"

record sys =
  files :: "string set"
  requests :: "string list"
  commands :: "ffmpeg_cmd list"

definition cmdOutput :: "ffmpeg_cmd \<Rightarrow> string" where
  "cmdOutput c =
     (case c of
        ClipTrim i d out \<Rightarrow> out
      | ClipLoop n i d out \<Rightarrow> out
      | KenBurns i z d out \<Rightarrow> out
      | SourceCredit i txt out \<Rightarrow> out
      | FallbackFrame out \<Rightarrow> out
      | ScaleProof i out \<Rightarrow> out
      | ProofOverlay v p f out \<Rightarrow> out)"

definition runCmd :: "env \<Rightarrow> ffmpeg_cmd \<Rightarrow> sys \<Rightarrow> bool \<times> sys" where
  "runCmd e c s =
     (if ffmpeg e c
      then (True, s\<lparr>files := insert (cmdOutput c) (files s), commands := commands s @ [c]\<rparr>)
      else (False, s\<lparr>commands := commands s @ [c]\<rparr>))"

section \<open>Evidence images (proof\_scraper.go)\<close>

subsection \<open>extractSearchQuery\<close>

text \<open>
  \<^verbatim>\<open>strings.Fields\<close> splits at runs of white space (the ASCII white space here),
  \<^verbatim>\<open>strings.Trim\<close> removes the characters of the cut set from both ends, and
  \<^verbatim>\<open>strings.Join\<close> puts the separator between the words.
\<close>

definition isSpace :: "char \<Rightarrow> bool" where
  "isSpace c = (c \<in> set [CHR '' '', CHR 0x09, CHR 0x0A, CHR 0x0B, CHR 0x0C, CHR 0x0D])"

fun splitWords :: "string \<Rightarrow> string \<Rightarrow> string list" where
  "splitWords cur [] = (if cur = [] then [] else [cur])"
| "splitWords cur (c # cs) =
     (if isSpace c then (if cur = [] then splitWords [] cs else cur # splitWords [] cs)
      else splitWords (cur @ [c]) cs)"

definition Fields :: "string \<Rightarrow> string list" where
  "Fields s = splitWords [] s"

definition Trim :: "string \<Rightarrow> string \<Rightarrow> string" where
  "Trim s cutset =
     rev (dropWhile (\<lambda>c. c \<in> set cutset) (rev (dropWhile (\<lambda>c. c \<in> set cutset) s)))"

fun Join :: "string list \<Rightarrow> string \<Rightarrow> string" where
  "Join [] sep = []"
| "Join [w] sep = w"
| "Join (w # ws) sep = w @ sep @ Join ws sep"

definition filler :: "string list" where
  "filler =
     [''the'', ''a'', ''an'', ''was'', ''were'', ''had'', ''have'', ''has'',
      ''her'', ''his'', ''their'', ''they'', ''she'', ''he'', ''it'', ''this'',
      ''that'', ''and'', ''or'', ''but'', ''for'', ''from'', ''with'', ''into'',
      ''nobody'', ''somebody'', ''everyone'', ''anyone'', ''three'', ''two'']"

definition cleanWord :: "string \<Rightarrow> string" where
  "cleanWord w = ToLower (Trim w [CHR ''.'', CHR '','', CHR ''!'', CHR ''?'', CHR 0x22, CHR 0x27])"

definition keptWords :: "string \<Rightarrow> string list" where
  "keptWords text =
     filter (\<lambda>clean. clean \<notin> set filler \<and> length clean > 3) (map cleanWord (Fields text))"

definition extractSearchQuery :: "string \<Rightarrow> string" where
  "extractSearchQuery text =
     (let kept = keptWords text;
          kept = (if length kept > 4 then take 4 kept else kept)
      in Join kept '' '')"

subsection \<open>Output file names\<close>

definition proofFile :: "string \<Rightarrow> int \<Rightarrow> string" where
  "proofFile outputDir sceneIndex = filepath_Join outputDir (''proof_'' @ fmt03d sceneIndex @ ''.jpg'')"

definition wikiFile :: "string \<Rightarrow> int \<Rightarrow> string" where
  "wikiFile outputDir sceneIndex =
     filepath_Join outputDir (''proof_'' @ fmt03d sceneIndex @ ''_wiki.jpg'')"

definition googleFile :: "string \<Rightarrow> int \<Rightarrow> string" where
  "googleFile outputDir sceneIndex =
     filepath_Join outputDir (''proof_'' @ fmt03d sceneIndex @ ''_google.jpg'')"

subsection \<open>downloadFile\<close>

datatype fetch_error =
    RequestFailed
  | HttpStatus int
  | FileTooSmall nat
  | WriteFailed
  | NoQuery
  | DecodeFailed
  | NoImageInResult
  | NoResults
  | AllDownloadsFailed
  | NoProofImage int

text \<open>
  The result is the error of the Go function, \<open>None\<close> for \<^verbatim>\<open>nil\<close>. The body is read
  through a reader limited to 10 MB. A URL that \<^verbatim>\<open>http.NewRequestWithContext\<close> rejects
  counts as a request that failed.
\<close>

definition downloadFile :: "env \<Rightarrow> string \<Rightarrow> string \<Rightarrow> sys \<Rightarrow> fetch_error option \<times> sys" where
  "downloadFile e fileURL outPath s =
     (let s1 = s\<lparr>requests := requests s @ [fileURL]\<rparr>
      in case httpGet e fileURL of
           None \<Rightarrow> (Some RequestFailed, s1)
         | Some resp \<Rightarrow>
             if status resp \<noteq> 200 then (Some (HttpStatus (status resp)), s1)
             else let data = take (10 * 1024 * 1024) (body resp)
                  in if length data < 1000 then (Some (FileTooSmall (length data)), s1)
                     else if writeFile e outPath
                          then (None, s1\<lparr>files := insert outPath (files s1)\<rparr>)
                          else (Some WriteFailed, s1))"

subsection \<open>searchWikipedia\<close>

definition wikiURL :: "env \<Rightarrow> string \<Rightarrow> string" where
  "wikiURL e query = ''https://en.wikipedia.org/api/rest_v1/page/summary/'' @ pathEscape e query"

definition searchWikipedia ::
  "env \<Rightarrow> string \<Rightarrow> string \<Rightarrow> int \<Rightarrow> sys \<Rightarrow> (fetch_error + string) \<times> sys" where
  "searchWikipedia e narration outputDir sceneIndex s =
     (let query = extractSearchQuery narration
      in if query = [] then (Inl NoQuery, s)
         else let searchURL = wikiURL e query;
                  s1 = s\<lparr>requests := requests s @ [searchURL]\<rparr>
              in case httpGet e searchURL of
                   None \<Rightarrow> (Inl RequestFailed, s1)
                 | Some resp \<Rightarrow>
                     if status resp \<noteq> 200 then (Inl (HttpStatus (status resp)), s1)
                     else case decodeWiki e (body resp) of
                            None \<Rightarrow> (Inl DecodeFailed, s1)
                          | Some (original, thumbnail) \<Rightarrow>
                              let imgURL = (if original = [] then thumbnail else original)
                              in if imgURL = [] then (Inl NoImageInResult, s1)
                                 else let outFile = wikiFile outputDir sceneIndex
                                      in case downloadFile e imgURL outFile s1 of
                                           (Some err, s2) \<Rightarrow> (Inl err, s2)
                                         | (None, s2) \<Rightarrow> (Inr outFile, s2))"

subsection \<open>searchGoogleImages\<close>

definition serpURL :: "env \<Rightarrow> string \<Rightarrow> string" where
  "serpURL e query =
     ''https://serpapi.com/search.json?engine=google_images&q='' @ queryEscape e query
       @ ''&num=3&api_key='' @ serpAPIKey e"

text \<open>The loop over the results: the first download that succeeds ends it.\<close>

fun downloadFirst :: "env \<Rightarrow> string list \<Rightarrow> string \<Rightarrow> sys \<Rightarrow> bool \<times> sys" where
  "downloadFirst e [] outFile s = (False, s)"
| "downloadFirst e (u # us) outFile s =
     (case downloadFile e u outFile s of
        (None, s1) \<Rightarrow> (True, s1)
      | (Some err, s1) \<Rightarrow> downloadFirst e us outFile s1)"

definition searchGoogleImages ::
  "env \<Rightarrow> string \<Rightarrow> string \<Rightarrow> string \<Rightarrow> int \<Rightarrow> sys \<Rightarrow> (fetch_error + string) \<times> sys" where
  "searchGoogleImages e narration storyTitle outputDir sceneIndex s =
     (let query = storyTitle @ '' '' @ extractSearchQuery narration;
          url = serpURL e query;
          s1 = s\<lparr>requests := requests s @ [url]\<rparr>
      in case httpGet e url of
           None \<Rightarrow> (Inl RequestFailed, s1)
         | Some resp \<Rightarrow>
             (case decodeSerp e (body resp) of
                None \<Rightarrow> (Inl DecodeFailed, s1)
              | Some results \<Rightarrow>
                  if results = [] then (Inl NoResults, s1)
                  else let outFile = googleFile outputDir sceneIndex
                       in case downloadFirst e results outFile s1 of
                            (True, s2) \<Rightarrow> (Inr outFile, s2)
                          | (False, s2) \<Rightarrow> (Inl AllDownloadsFailed, s2)))"

subsection \<open>FetchProofImage\<close>

definition FetchProofImage ::
  "env \<Rightarrow> ScriptScene \<Rightarrow> Story \<Rightarrow> string \<Rightarrow> sys \<Rightarrow> (fetch_error + string) \<times> sys" where
  "FetchProofImage e scene story outputDir s =
     (let outFile = proofFile outputDir (Index scene);
          (done1, s1) =
             (if ProofImageURL scene \<noteq> []
              then (case downloadFile e (ProofImageURL scene) outFile s of
                      (None, s') \<Rightarrow> (True, s')
                    | (Some err, s') \<Rightarrow> (False, s'))
              else (False, s))
      in if done1 then (Inr outFile, s1)
         else case searchWikipedia e (Narration scene) outputDir (Index scene) s1 of
                (Inr img, s2) \<Rightarrow> (Inr img, s2)
              | (Inl err, s2) \<Rightarrow>
                  (case downloadFirst e (ImageURLs story) outFile s2 of
                     (True, s3) \<Rightarrow> (Inr outFile, s3)
                   | (False, s3) \<Rightarrow>
                       (if serpAPIKey e \<noteq> []
                        then (case searchGoogleImages e (Narration scene) (Title story)
                                     outputDir (Index scene) s3 of
                                (Inr img, s4) \<Rightarrow> (Inr img, s4)
                              | (Inl err, s4) \<Rightarrow> (Inl (NoProofImage (Index scene)), s4))
                        else (Inl (NoProofImage (Index scene)), s3))))"

subsection \<open>The ordered chain, as the specification words it\<close>

text \<open>
  A download succeeds when the request is answered with status 200, the body has at
  least 1000 bytes and the file can be written. The four steps of the chain, each as a
  condition on the outside world alone, and the requests each step sends.
\<close>

definition downloadable :: "env \<Rightarrow> string \<Rightarrow> string \<Rightarrow> bool" where
  "downloadable e u out =
     (case httpGet e u of
        None \<Rightarrow> False
      | Some resp \<Rightarrow> status resp = 200 \<and> 1000 \<le> length (body resp) \<and> writeFile e out)"

definition untilFirst :: "env \<Rightarrow> string list \<Rightarrow> string \<Rightarrow> string list" where
  "untilFirst e us out =
     takeWhile (\<lambda>u. \<not> downloadable e u out) us
       @ take 1 (dropWhile (\<lambda>u. \<not> downloadable e u out) us)"

definition wikiImage :: "env \<Rightarrow> string \<Rightarrow> string option" where
  "wikiImage e narration =
     (if extractSearchQuery narration = [] then None
      else case httpGet e (wikiURL e (extractSearchQuery narration)) of
             None \<Rightarrow> None
           | Some resp \<Rightarrow>
               if status resp \<noteq> 200 then None
               else case decodeWiki e (body resp) of
                      None \<Rightarrow> None
                    | Some (original, thumbnail) \<Rightarrow>
                        if original \<noteq> [] then Some original
                        else if thumbnail \<noteq> [] then Some thumbnail else None)"

definition searchResults :: "env \<Rightarrow> ScriptScene \<Rightarrow> Story \<Rightarrow> string list" where
  "searchResults e scene story =
     (case httpGet e (serpURL e (Title story @ '' '' @ extractSearchQuery (Narration scene))) of
        None \<Rightarrow> []
      | Some resp \<Rightarrow> (case decodeSerp e (body resp) of None \<Rightarrow> [] | Some results \<Rightarrow> results))"

definition step1 :: "env \<Rightarrow> ScriptScene \<Rightarrow> string \<Rightarrow> bool" where
  "step1 e scene dir =
     (ProofImageURL scene \<noteq> [] \<and> downloadable e (ProofImageURL scene) (proofFile dir (Index scene)))"

definition step2 :: "env \<Rightarrow> ScriptScene \<Rightarrow> string \<Rightarrow> bool" where
  "step2 e scene dir =
     (case wikiImage e (Narration scene) of
        None \<Rightarrow> False
      | Some img \<Rightarrow> downloadable e img (wikiFile dir (Index scene)))"

definition step3 :: "env \<Rightarrow> ScriptScene \<Rightarrow> Story \<Rightarrow> string \<Rightarrow> bool" where
  "step3 e scene story dir =
     list_ex (\<lambda>u. downloadable e u (proofFile dir (Index scene))) (ImageURLs story)"

definition step4 :: "env \<Rightarrow> ScriptScene \<Rightarrow> Story \<Rightarrow> string \<Rightarrow> bool" where
  "step4 e scene story dir =
     (serpAPIKey e \<noteq> []
      \<and> list_ex (\<lambda>u. downloadable e u (googleFile dir (Index scene))) (searchResults e scene story))"

definition trace1 :: "ScriptScene \<Rightarrow> string list" where
  "trace1 scene = (if ProofImageURL scene \<noteq> [] then [ProofImageURL scene] else [])"

definition trace2 :: "env \<Rightarrow> ScriptScene \<Rightarrow> string list" where
  "trace2 e scene =
     (if extractSearchQuery (Narration scene) = [] then []
      else wikiURL e (extractSearchQuery (Narration scene))
             # (case wikiImage e (Narration scene) of None \<Rightarrow> [] | Some img \<Rightarrow> [img]))"

definition trace3 :: "env \<Rightarrow> ScriptScene \<Rightarrow> Story \<Rightarrow> string \<Rightarrow> string list" where
  "trace3 e scene story dir = untilFirst e (ImageURLs story) (proofFile dir (Index scene))"

definition trace4 :: "env \<Rightarrow> ScriptScene \<Rightarrow> Story \<Rightarrow> string \<Rightarrow> string list" where
  "trace4 e scene story dir =
     (if serpAPIKey e = [] then []
      else serpURL e (Title story @ '' '' @ extractSearchQuery (Narration scene))
             # untilFirst e (searchResults e scene story) (googleFile dir (Index scene)))"

definition chainResult :: "env \<Rightarrow> ScriptScene \<Rightarrow> Story \<Rightarrow> string \<Rightarrow> fetch_error + string" where
  "chainResult e scene story dir =
     (if step1 e scene dir then Inr (proofFile dir (Index scene))
      else if step2 e scene dir then Inr (wikiFile dir (Index scene))
      else if step3 e scene story dir then Inr (proofFile dir (Index scene))
      else if step4 e scene story dir then Inr (googleFile dir (Index scene))
      else Inl (NoProofImage (Index scene)))"

definition chainTrace :: "env \<Rightarrow> ScriptScene \<Rightarrow> Story \<Rightarrow> string \<Rightarrow> string list" where
  "chainTrace e scene story dir =
     trace1 scene
       @ (if step1 e scene dir then []
          else trace2 e scene
                 @ (if step2 e scene dir then []
                    else trace3 e scene story dir
                           @ (if step3 e scene story dir then []
                              else trace4 e scene story dir)))"

section \<open>Generated images (PollinationsFetcher)\<close>

definition moodStyles :: "(string \<times> string) list" where
  "moodStyles =
     [(''tense'', ''cinematic noir lighting, dark shadows, dramatic contrast, 4K photorealistic''),
      (''reveal'', ''dramatic spotlight, high contrast, moody atmosphere, cinematic close-up''),
      (''eerie'', ''dark foggy atmosphere, eerie lighting, desaturated colors, photorealistic''),
      (''action'', ''dynamic composition, dramatic lighting, motion blur, cinematic''),
      (''sad'', ''melancholic lighting, soft shadows, muted tones, emotionally heavy''),
      (''hook'', ''extreme dramatic lighting, high contrast black and white, cinematic masterpiece'')]"

definition enhancePrompt :: "string \<Rightarrow> string \<Rightarrow> string" where
  "enhancePrompt base mood =
     (let style = (case map_of moodStyles mood of
                     Some st \<Rightarrow> st
                   | None \<Rightarrow> ''cinematic, dramatic lighting, photorealistic, 4K, dark atmosphere'');
          safetyModifiers = ''no text, no watermark, no people's faces, environmental scene only''
      in base @ '', '' @ style @ '', '' @ safetyModifiers)"

definition pollinationsURL :: "env \<Rightarrow> ScriptScene \<Rightarrow> string" where
  "pollinationsURL e scene =
     ''https://image.pollinations.ai/prompt/''
       @ pathEscape e (enhancePrompt (ImagePrompt scene) (Mood scene))
       @ ''?width=1920&height=1080&nologo=true&model=flux&seed=''
       @ showInt (Index scene * 42 + 7)"

definition dramaticFile :: "string \<Rightarrow> int \<Rightarrow> string" where
  "dramaticFile outputDir sceneIndex =
     filepath_Join outputDir (''dramatic_'' @ fmt03d sceneIndex @ ''.jpg'')"

definition downloadImage ::
  "env \<Rightarrow> string \<Rightarrow> string \<Rightarrow> nat \<Rightarrow> sys \<Rightarrow> fetch_error option \<times> sys" where
  "downloadImage e imageURL outFile attempt s =
     (let s1 = s\<lparr>requests := requests s @ [imageURL]\<rparr>
      in case pollinationsGet e imageURL attempt of
           None \<Rightarrow> (Some RequestFailed, s1)
         | Some resp \<Rightarrow>
             if status resp \<noteq> 200 then (Some (HttpStatus (status resp)), s1)
             else if length (body resp) < 100 then (Some (FileTooSmall (length (body resp))), s1)
             else if writeFile e outFile
                  then (None, s1\<lparr>files := insert outFile (files s1)\<rparr>)
                  else (Some WriteFailed, s1))"

text \<open>The retry loop over the attempts 1, 2 and 3 (the pauses between them do nothing else).\<close>

fun tryAttempts :: "env \<Rightarrow> string \<Rightarrow> string \<Rightarrow> nat list \<Rightarrow> sys \<Rightarrow> bool \<times> sys" where
  "tryAttempts e imageURL outFile [] s = (False, s)"
| "tryAttempts e imageURL outFile (attempt # rest) s =
     (case downloadImage e imageURL outFile attempt s of
        (None, s1) \<Rightarrow> (True, s1)
      | (Some err, s1) \<Rightarrow> tryAttempts e imageURL outFile rest s1)"

datatype image_error = NoImagePrompt int | FetchFailedAfter3

definition Fetch :: "env \<Rightarrow> ScriptScene \<Rightarrow> string \<Rightarrow> sys \<Rightarrow> (image_error + string) \<times> sys" where
  "Fetch e scene outputDir s =
     (if ImagePrompt scene = [] then (Inl (NoImagePrompt (Index scene)), s)
      else let imageURL = pollinationsURL e scene;
               outFile = dramaticFile outputDir (Index scene)
           in case tryAttempts e imageURL outFile [1, 2, 3] s of
                (True, s1) \<Rightarrow> (Inr outFile, s1)
              | (False, s1) \<Rightarrow> (Inl FetchFailedAfter3, s1))"

section \<open>Scene transforms and the resolver (visuals.Assembler)\<close>

datatype run_error =
    MkdirFailed
  | VisualFallbackFailed nat
  | ClipPrepFailed nat
  | FfmpegClipPrep
  | FfmpegKenBurns
  | FfmpegSourceCredit

subsection \<open>prepareVideoClip\<close>

definition targetDuration :: "ScriptScene \<Rightarrow> real" where
  "targetDuration scene = (if AudioDurationSec scene \<le> 0 then 5.0 else AudioDurationSec scene)"

definition clipFile :: "string \<Rightarrow> int \<Rightarrow> string" where
  "clipFile outputDir sceneIndex = filepath_Join outputDir (''clip_'' @ fmt03d sceneIndex @ ''.mp4'')"

definition clipCommand :: "env \<Rightarrow> string \<Rightarrow> ScriptScene \<Rightarrow> string \<Rightarrow> ffmpeg_cmd" where
  "clipCommand e clipPath scene outputDir =
     (let outFile = clipFile outputDir (Index scene);
          duration = targetDuration scene;
          clipDur = (case ffprobe e clipPath of None \<Rightarrow> duration | Some d \<Rightarrow> d)
      in if clipDur \<ge> duration then ClipTrim clipPath duration outFile
         else let loops = go_int (fdiv duration clipDur) + 2
              in ClipLoop loops clipPath duration outFile)"

definition prepareVideoClip ::
  "env \<Rightarrow> string \<Rightarrow> ScriptScene \<Rightarrow> string \<Rightarrow> sys \<Rightarrow> (run_error + string) \<times> sys" where
  "prepareVideoClip e clipPath scene outputDir s =
     (case runCmd e (clipCommand e clipPath scene outputDir) s of
        (False, s1) \<Rightarrow> (Inl FfmpegClipPrep, s1)
      | (True, s1) \<Rightarrow> (Inr (clipFile outputDir (Index scene)), s1))"

subsection \<open>prepareImageWithKenBurns\<close>

definition kenburnsFile :: "string \<Rightarrow> int \<Rightarrow> string" where
  "kenburnsFile outputDir sceneIndex =
     filepath_Join outputDir (''kenburns_'' @ fmt03d sceneIndex @ ''.mp4'')"

definition totalFrames :: "VisualsConfig \<Rightarrow> ScriptScene \<Rightarrow> int" where
  "totalFrames cfg scene = go_int (Fin (targetDuration scene * of_int (FPS cfg)))"

definition zoomStep :: "VisualsConfig \<Rightarrow> ScriptScene \<Rightarrow> f64" where
  "zoomStep cfg scene = fdiv (KenBurnsZoomFactor cfg - 1.0) (of_int (totalFrames cfg scene))"

definition zoomFilter :: "VisualsConfig \<Rightarrow> ScriptScene \<Rightarrow> zoom_filter" where
  "zoomFilter cfg scene =
     \<lparr>zf_step = zoomStep cfg scene, zf_max = KenBurnsZoomFactor cfg,
      zf_d = totalFrames cfg scene, zf_fps = FPS cfg\<rparr>"

definition kenBurnsCommand :: "VisualsConfig \<Rightarrow> string \<Rightarrow> ScriptScene \<Rightarrow> string \<Rightarrow> ffmpeg_cmd" where
  "kenBurnsCommand cfg imgPath scene outputDir =
     KenBurns imgPath (zoomFilter cfg scene) (targetDuration scene)
       (kenburnsFile outputDir (Index scene))"

definition prepareImageWithKenBurns ::
  "env \<Rightarrow> VisualsConfig \<Rightarrow> string \<Rightarrow> ScriptScene \<Rightarrow> string \<Rightarrow> sys
     \<Rightarrow> (run_error + string) \<times> sys" where
  "prepareImageWithKenBurns e cfg imgPath scene outputDir s =
     (case runCmd e (kenBurnsCommand cfg imgPath scene outputDir) s of
        (False, s1) \<Rightarrow> (Inl FfmpegKenBurns, s1)
      | (True, s1) \<Rightarrow> (Inr (kenburnsFile outputDir (Index scene)), s1))"




subsection \<open>addSourceCredit and createFallbackFrame\<close>

definition replaceChar :: "char \<Rightarrow> string \<Rightarrow> string \<Rightarrow> string" where
  "replaceChar c r s = concat (map (\<lambda>x. if x = c then r else [x]) s)"

definition escapeFFmpegText :: "string \<Rightarrow> string" where
  "escapeFFmpegText s =
     replaceChar CHR '':'' [CHR 0x5C, CHR '':''] (replaceChar CHR 0x27 [CHR 0x5C, CHR 0x27] s)"

definition creditText :: "Story \<Rightarrow> string" where
  "creditText story =
     (let credit = ''Source: '' @ Source story
      in if PublishedAt story \<noteq> [] \<and> length (PublishedAt story) \<ge> 4
         then credit @ '', '' @ take 4 (PublishedAt story) else credit)"

definition creditedFile :: "string \<Rightarrow> int \<Rightarrow> string" where
  "creditedFile outputDir sceneIndex =
     filepath_Join outputDir (''proof_credited_'' @ fmt03d sceneIndex @ ''.jpg'')"

definition addSourceCredit ::
  "env \<Rightarrow> string \<Rightarrow> ScriptScene \<Rightarrow> Story \<Rightarrow> string \<Rightarrow> sys \<Rightarrow> (run_error + string) \<times> sys" where
  "addSourceCredit e imgPath scene story outputDir s =
     (let outFile = creditedFile outputDir (Index scene)
      in case runCmd e (SourceCredit imgPath (escapeFFmpegText (creditText story)) outFile) s of
           (False, s1) \<Rightarrow> (Inl FfmpegSourceCredit, s1)
         | (True, s1) \<Rightarrow> (Inr outFile, s1))"

definition fallbackFile :: "string \<Rightarrow> nat \<Rightarrow> string" where
  "fallbackFile outputDir sceneIndex =
     filepath_Join outputDir (''fallback_'' @ fmt03d (int sceneIndex) @ ''.jpg'')"

text \<open>The result of the subprocess is dropped (\<^verbatim>\<open>_ = ... .Run()\<close>).\<close>

definition createFallbackFrame :: "env \<Rightarrow> string \<Rightarrow> nat \<Rightarrow> sys \<Rightarrow> string \<times> sys" where
  "createFallbackFrame e outputDir sceneIndex s =
     (let outFile = fallbackFile outputDir sceneIndex
      in case runCmd e (FallbackFrame outFile) s of (ok, s1) \<Rightarrow> (outFile, s1))"


subsection \<open>Assembler.Run\<close>

text \<open>
  \<^verbatim>\<open>Script\<close> of \<^verbatim>\<open>types.go\<close>; its title field is named \<open>ScriptTitle\<close> here, \<open>Title\<close> being the
  field of \<open>Story\<close>.
\<close>

record Script =
  StoryID :: string
  ScriptTitle :: string
  TotalSec :: real
  Scenes :: "ScriptScene list"

text \<open>
  \<open>resolveScene\<close> is the body of the loop of \<^verbatim>\<open>Run\<close> for the scene at position \<open>i\<close>: the
  \<^verbatim>\<open>switch\<close> on the scene type. The scene is changed in place, so what was written to it
  before an error stays written; the result carries the error of \<^verbatim>\<open>Run\<close> (\<open>None\<close>: the
  loop goes on), the scene, the asset manager and the outside state afterwards. A scene
  type other than the three of the \<^verbatim>\<open>switch\<close> matches no case and leaves the scene as
  it is.
\<close>

definition defaultClipPrompt :: "ScriptScene \<Rightarrow> string" where
  "defaultClipPrompt scene = ''dark crime scene '' @ Mood scene @ '' atmosphere cinematic''"

definition defaultProofPrompt :: string where
  "defaultProofPrompt = ''evidence document crime scene investigation cinematic''"

definition withDefaultPrompt :: "string \<Rightarrow> ScriptScene \<Rightarrow> ScriptScene" where
  "withDefaultPrompt prompt scene =
     (if ImagePrompt scene = [] then scene\<lparr>ImagePrompt := prompt\<rparr> else scene)"

definition resolveCinematic ::
  "env \<Rightarrow> VisualsConfig \<Rightarrow> string \<Rightarrow> nat \<Rightarrow> ScriptScene \<Rightarrow> AssetManager \<Rightarrow> sys
     \<Rightarrow> run_error option \<times> ScriptScene \<times> AssetManager \<times> sys" where
  "resolveCinematic e cfg visualDir i scene am s =
     (case Pick am scene (mapOrder1 e i) (mapOrder2 e i) (randIntn e i) of
        Inl err \<Rightarrow>
          (let scene1 = withDefaultPrompt (defaultClipPrompt scene)
                          (scene\<lparr>SceneType := ''dramatic''\<rparr>)
           in case Fetch e scene1 visualDir s of
                (Inl ferr, s1) \<Rightarrow> (Some (VisualFallbackFailed i), scene1, am, s1)
              | (Inr img, s1) \<Rightarrow>
                  (case prepareImageWithKenBurns e cfg img scene1 visualDir s1 of
                     (Inl perr, s2) \<Rightarrow> (Some perr, scene1, am, s2)
                   | (Inr prepared, s2) \<Rightarrow>
                       (None, scene1\<lparr>VisualFile := prepared\<rparr>, am, s2)))
      | Inr (clip, am1) \<Rightarrow>
          (case prepareVideoClip e clip scene visualDir s of
             (Inl perr, s1) \<Rightarrow> (Some (ClipPrepFailed i), scene, am1, s1)
           | (Inr prepared, s1) \<Rightarrow> (None, scene\<lparr>VisualFile := prepared\<rparr>, am1, s1)))"

definition fetchOrFallback ::
  "env \<Rightarrow> string \<Rightarrow> nat \<Rightarrow> ScriptScene \<Rightarrow> sys \<Rightarrow> string \<times> sys" where
  "fetchOrFallback e visualDir i scene s =
     (case Fetch e scene visualDir s of
        (Inl ferr, s1) \<Rightarrow> createFallbackFrame e visualDir i s1
      | (Inr img, s1) \<Rightarrow> (img, s1))"

definition resolveDramatic ::
  "env \<Rightarrow> VisualsConfig \<Rightarrow> string \<Rightarrow> nat \<Rightarrow> ScriptScene \<Rightarrow> AssetManager \<Rightarrow> sys
     \<Rightarrow> run_error option \<times> ScriptScene \<times> AssetManager \<times> sys" where
  "resolveDramatic e cfg visualDir i scene am s =
     (case fetchOrFallback e visualDir i scene s of
        (img, s1) \<Rightarrow>
          (case prepareImageWithKenBurns e cfg img scene visualDir s1 of
             (Inl perr, s2) \<Rightarrow> (Some perr, scene, am, s2)
           | (Inr prepared, s2) \<Rightarrow> (None, scene\<lparr>VisualFile := prepared\<rparr>, am, s2)))"

definition resolveProof ::
  "env \<Rightarrow> VisualsConfig \<Rightarrow> Story \<Rightarrow> string \<Rightarrow> nat \<Rightarrow> ScriptScene \<Rightarrow> AssetManager \<Rightarrow> sys
     \<Rightarrow> run_error option \<times> ScriptScene \<times> AssetManager \<times> sys" where
  "resolveProof e cfg story visualDir i scene am s =
     (case FetchProofImage e scene story visualDir s of
        (Inl err, s1) \<Rightarrow>
          (let scene1 = withDefaultPrompt defaultProofPrompt (scene\<lparr>SceneType := ''dramatic''\<rparr>)
           in case fetchOrFallback e visualDir i scene1 s1 of
                (img2, s2) \<Rightarrow>
                  (case prepareImageWithKenBurns e cfg img2 scene1 visualDir s2 of
                     (Inl err3, s3) \<Rightarrow> (Some err3, scene1, am, s3)
                   | (Inr prepared, s3) \<Rightarrow>
                       (None, scene1\<lparr>VisualFile := prepared\<rparr>, am, s3)))
      | (Inr img, s1) \<Rightarrow>
          (case addSourceCredit e img scene story visualDir s1 of
             (Inl cerr, s2) \<Rightarrow> (None, scene\<lparr>VisualFile := img\<rparr>, am, s2)
           | (Inr credited, s2) \<Rightarrow> (None, scene\<lparr>VisualFile := credited\<rparr>, am, s2)))"

definition resolveScene ::
  "env \<Rightarrow> VisualsConfig \<Rightarrow> Story \<Rightarrow> string \<Rightarrow> nat \<Rightarrow> ScriptScene \<Rightarrow> AssetManager \<Rightarrow> sys
     \<Rightarrow> run_error option \<times> ScriptScene \<times> AssetManager \<times> sys" where
  "resolveScene e cfg story visualDir i scene am s =
     (if SceneType scene = ''cinematic'' then resolveCinematic e cfg visualDir i scene am s
      else if SceneType scene = ''dramatic'' then resolveDramatic e cfg visualDir i scene am s
      else if SceneType scene = ''proof'' then resolveProof e cfg story visualDir i scene am s
      else (None, scene, am, s))"

fun runScenes ::
  "env \<Rightarrow> VisualsConfig \<Rightarrow> Story \<Rightarrow> string \<Rightarrow> nat \<Rightarrow> ScriptScene list \<Rightarrow> AssetManager \<Rightarrow> sys
     \<Rightarrow> run_error option \<times> ScriptScene list \<times> AssetManager \<times> sys" where
  "runScenes e cfg story visualDir i [] am s = (None, [], am, s)"
| "runScenes e cfg story visualDir i (scene # rest) am s =
     (case resolveScene e cfg story visualDir i scene am s of
        (Some err, scene', am1, s1) \<Rightarrow> (Some err, scene' # rest, am1, s1)
      | (None, scene', am1, s1) \<Rightarrow>
          (case runScenes e cfg story visualDir (Suc i) rest am1 s1 of
             (r, rest', am2, s2) \<Rightarrow> (r, scene' # rest', am2, s2)))"

record Assembler =
  a_cfg :: VisualsConfig
  assetManager :: AssetManager

definition Run ::
  "env \<Rightarrow> Assembler \<Rightarrow> Script \<Rightarrow> Story \<Rightarrow> string \<Rightarrow> sys
     \<Rightarrow> run_error option \<times> Script \<times> Assembler \<times> sys" where
  "Run e a script story outputDir s =
     (let visualDir = filepath_Join outputDir ''visuals''
      in if \<not> mkdirAll e visualDir then (Some MkdirFailed, script, a, s)
         else case runScenes e (a_cfg a) story visualDir 0 (Scenes script) (assetManager a) s of
                (r, scenes', am', s') \<Rightarrow>
                  (r, script\<lparr>Scenes := scenes'\<rparr>, a\<lparr>assetManager := am'\<rparr>, s'))"

section \<open>Evidence overlays (render.Renderer)\<close>

subsection \<open>applyOneProofOverlay\<close>













subsection \<open>applyProofOverlays\<close>





section \<open>Concrete inputs\<close>

definition am0 :: AssetManager where
  "am0 = \<lparr>assetsVideo = ''assets/video'',
          tags = [(''a.mp4'', [''Night'', ''city'']), (''b.mp4'', [''forest'', ''tense'']), (''c.mp4'', [])],
          usageLog = (\<lambda>_. []), runID = ''r1'', usedInRun = {}\<rparr>"

definition sc0 :: ScriptScene where
  "sc0 = \<lparr>Index = 0, TimestampStart = 0, TimestampEnd = 0, Narration = [], SceneType = ''cinematic'',
     Mood = ''Tense'', ImagePrompt = [], AssetTags = [''FOREST'', ''city''], ProofImageURL = [],
     ProofImageLocal = [], ProofDurationSec = 0, AudioFile = [], AudioDurationSec = 0,
     VisualFile = [], SFXFile = []\<rparr>"

definition env0 :: env where
  "env0 = \<lparr>httpGet = (\<lambda>u. if u = ''http://a/own.jpg'' then Some \<lparr>status = 200, body = replicate 999 CHR ''x''\<rparr>
                         else if u = ''http://a/s1.jpg'' then Some \<lparr>status = 404, body = replicate 5000 CHR ''x''\<rparr>
                         else if u = ''http://a/s2.jpg'' then Some \<lparr>status = 200, body = replicate 1000 CHR ''x''\<rparr>
                         else None),
            pollinationsGet = (\<lambda>u n. None),
            writeFile = (\<lambda>p. True),
            ffmpeg = (\<lambda>c. True),
            ffprobe = (\<lambda>p. None),
            decodeWiki = (\<lambda>b. None),
            decodeSerp = (\<lambda>b. None),
            pathEscape = (\<lambda>q. q),
            queryEscape = (\<lambda>q. q),
            serpAPIKey = [],
            mkdirAll = (\<lambda>p. True),
            mapOrder1 = (\<lambda>i. []),
            mapOrder2 = (\<lambda>i. []),
            randIntn = (\<lambda>i. 0)\<rparr>"

definition sys0 :: sys where
  "sys0 = \<lparr>files = {}, requests = [], commands = []\<rparr>"

definition proofScene0 :: ScriptScene where
  "proofScene0 = \<lparr>Index = 7, TimestampStart = 10, TimestampEnd = 16, Narration = ''The cat sat.'', SceneType = ''proof'',
     Mood = ''reveal'', ImagePrompt = [], AssetTags = [], ProofImageURL = ''http://a/own.jpg'',
     ProofImageLocal = [], ProofDurationSec = 4, AudioFile = [], AudioDurationSec = 6,
     VisualFile = [], SFXFile = []\<rparr>"

definition story0 :: Story where
  "story0 = \<lparr>ID = ''s'', Title = ''Case'', Body = [], Source = ''Gazette'', SourceURL = [], Score = 0,
     PublishedAt = ''2021-03-04'', ImageURLs = [''http://a/s1.jpg'', ''http://a/s2.jpg'', ''http://a/s3.jpg''], Keywords = []\<rparr>"

definition cfg0 :: VisualsConfig where
  "cfg0 = \<lparr>FPS = 30, ProofAnimationDurationSec = 0.4, ProofHoldSecDefault = 4,
           BackgroundDimDuringProof = 0.4, KenBurnsZoomFactor = 1.08\<rparr>"




definition asm0 :: Assembler where
  "asm0 = \<lparr>a_cfg = cfg0, assetManager = am0\<lparr>tags := []\<rparr>\<rparr>"

definition scriptCinematic :: Script where
  "scriptCinematic = \<lparr>StoryID = ''s'', ScriptTitle = ''Case'', TotalSec = 0, Scenes = [sc0]\<rparr>"

definition scriptDramatic :: Script where
  "scriptDramatic =
     \<lparr>StoryID = ''s'', ScriptTitle = ''Case'', TotalSec = 0,
      Scenes = [sc0\<lparr>SceneType := ''dramatic'', ImagePrompt := ''dark alley''\<rparr>]\<rparr>"

definition proofScene8 :: ScriptScene where
  "proofScene8 = proofScene0\<lparr>Index := 8, ProofImageURL := []\<rparr>"

definition envNoWrite8 :: env where
  "envNoWrite8 = env0\<lparr>writeFile := (\<lambda>p. p \<noteq> ''out/visuals/proof_008.jpg'')\<rparr>"

definition scriptProof :: Script where
  "scriptProof =
     \<lparr>StoryID = ''s'', ScriptTitle = ''Case'', TotalSec = 0, Scenes = [proofScene0, proofScene8]\<rparr>"

definition envNoFallback :: env where
  "envNoFallback = env0\<lparr>ffmpeg := (\<lambda>c. False)\<rparr>"

section \<open>Clip selection: scoring, ordering and the usage ledger\<close>

lemma clipTagSet_eq: "clipTagSet clipTags = ToLower ` set clipTags"
proof -
  have "foldl (\<lambda>m t. insert (ToLower t) m) A clipTags = A \<union> ToLower ` set clipTags" for A
    by (induction clipTags arbitrary: A) auto
  then show ?thesis by (simp add: clipTagSet_def)
qed

lemma score_fold:
  "foldl (\<lambda>sc req. if P req then sc + 10 else sc) (a::int) required
     = a + 10 * int (length (filter P required))"
  by (induction required arbitrary: a) auto

lemma matchScore_closed:
  "matchScore required clipTags mood =
     10 * int (length (filter (\<lambda>r. ToLower r \<in> ToLower ` set clipTags) required))
       + (if ToLower mood \<in> ToLower ` set clipTags then 15 else 0)"
  by (simp add: matchScore_def Let_def clipTagSet_eq score_fold)

lemma matchScore_nonneg: "0 \<le> matchScore required clipTags mood"
  by (simp add: matchScore_closed)

lemma mset_bubble: "mset (bubble x p) = add_mset x (mset p)"
  by (induction p) auto

lemma set_bubble: "set (bubble x p) = insert x (set p)"
  by (induction p) auto

lemma sorted_bubble:
  "sorted_wrt (\<lambda>a b. s_score a \<le> s_score b) p \<Longrightarrow>
   sorted_wrt (\<lambda>a b. s_score a \<le> s_score b) (bubble x p)"
  by (induction p) (auto simp: set_bubble)

lemma mset_fold_bubble: "mset (foldl (\<lambda>p x. bubble x p) acc s) = mset acc + mset s"
  by (induction s arbitrary: acc) (auto simp: mset_bubble)

lemma sorted_fold_bubble:
  "sorted_wrt (\<lambda>a b. s_score a \<le> s_score b) acc \<Longrightarrow>
   sorted_wrt (\<lambda>a b. s_score a \<le> s_score b) (foldl (\<lambda>p x. bubble x p) acc s)"
  by (induction s arbitrary: acc) (auto simp: sorted_bubble)

lemma mset_sortScored: "mset (sortScored s) = mset s"
  by (simp add: sortScored_def mset_fold_bubble)

lemma set_sortScored: "set (sortScored s) = set s"
  using mset_sortScored [of s] by (metis set_mset_mset)

lemma length_sortScored: "length (sortScored s) = length s"
  using mset_sortScored [of s] by (metis size_mset)

lemma sorted_sortScored: "sorted_wrt (\<lambda>a b. s_score a \<ge> s_score b) (sortScored s)"
proof -
  have "sorted_wrt (\<lambda>a b. s_score a \<le> s_score b) (foldl (\<lambda>p x. bubble x p) [] s)"
    by (rule sorted_fold_bubble) simp
  then show ?thesis
    by (simp add: sortScored_def sorted_wrt_rev)
qed

lemma scoreCandidates_eq:
  "scoreCandidates am scene order1 =
     map (\<lambda>(f, clipTags). \<lparr>s_file = f, s_score = matchScore (AssetTags scene) clipTags (Mood scene)\<rparr>)
         (filter (\<lambda>(f, clipTags). f \<notin> usedInRun am) order1)"
  unfolding scoreCandidates_def
  by (induction order1) (auto simp: matchScore_nonneg Let_def)

lemma unusedCandidates_eq:
  "unusedCandidates am order2 =
     map (\<lambda>(f, clipTags). \<lparr>s_file = f, s_score = 0\<rparr>)
         (filter (\<lambda>(f, clipTags). f \<notin> usedInRun am) order2)"
  unfolding unusedCandidates_def
  by (induction order2) auto

lemma candidates_unused: "c \<in> set (candidatesOf am scene order1 order2) \<Longrightarrow> s_file c \<notin> usedInRun am"
  by (auto simp: candidatesOf_def Let_def scoreCandidates_eq unusedCandidates_eq split: if_splits)

lemma topN_bound: "candidates \<noteq> [] \<Longrightarrow> 0 < topN candidates \<and> topN candidates \<le> length candidates \<and> topN candidates \<le> 3"
  by (auto simp: topN_def)

lemma Pick_Inr:
  assumes "Pick am scene order1 order2 rnd = Inr (path, am1)"
  shows "\<exists>f. f \<notin> usedInRun am \<and> am1 = markUsed am f \<and> path = filepath_Join (assetsVideo am) f"
proof -
  let ?c = "candidatesOf am scene order1 order2"
  from assms have ne: "?c \<noteq> []" and
    eq: "path = filepath_Join (assetsVideo am) (s_file (sortScored ?c ! (rnd mod topN ?c)))"
        "am1 = markUsed am (s_file (sortScored ?c ! (rnd mod topN ?c)))"
    by (auto simp: Pick_def Let_def split: if_splits)
  have "rnd mod topN ?c < topN ?c"
    using topN_bound [OF ne] by simp
  moreover have "topN ?c \<le> length ?c"
    using topN_bound [OF ne] by simp
  ultimately have "rnd mod topN ?c < length ?c"
    by (rule less_le_trans)
  then have "rnd mod topN ?c < length (sortScored ?c)"
    by (simp only: length_sortScored)
  then have "sortScored ?c ! (rnd mod topN ?c) \<in> set ?c"
    using set_sortScored nth_mem by blast
  then have "s_file (sortScored ?c ! (rnd mod topN ?c)) \<notin> usedInRun am"
    by (rule candidates_unused)
  with eq show ?thesis by blast
qed

lemma PickSeq_files:
  "PickSeq am calls = (rs, am') \<Longrightarrow>
   \<exists>files. usageLog am' (runID am) = usageLog am (runID am) @ files
      \<and> usedInRun am' = usedInRun am \<union> set files
      \<and> distinct files \<and> set files \<inter> usedInRun am = {}
      \<and> runID am' = runID am \<and> assetsVideo am' = assetsVideo am
      \<and> [p. Inr p \<leftarrow> rs] = map (filepath_Join (assetsVideo am)) files"
proof (induction calls arbitrary: am rs am')
  case Nil
  then show ?case by simp
next
  case (Cons c cs)
  show ?case
  proof (cases "Pick am (pc_scene c) (pc_order1 c) (pc_order2 c) (pc_rnd c)")
    case (Inl e)
    with Cons.prems obtain rs' where r: "PickSeq am cs = (rs', am')" "rs = Inl e # rs'"
      by (auto split: prod.splits)
    from Cons.IH [OF r(1)] r(2) show ?thesis by auto
  next
    case (Inr pa)
    obtain path am1 where pa: "pa = (path, am1)" by (cases pa)
    with Inr Cons.prems obtain rs' where r: "PickSeq am1 cs = (rs', am')" "rs = Inr path # rs'"
      by (auto split: prod.splits)
    from Pick_Inr Inr pa obtain f where f: "f \<notin> usedInRun am" "am1 = markUsed am f"
      "path = filepath_Join (assetsVideo am) f" by blast
    from Cons.IH [OF r(1)] obtain files where
      h: "usageLog am' (runID am1) = usageLog am1 (runID am1) @ files"
         "usedInRun am' = usedInRun am1 \<union> set files"
         "distinct files" "set files \<inter> usedInRun am1 = {}"
         "runID am' = runID am1" "assetsVideo am' = assetsVideo am1"
         "[p. Inr p \<leftarrow> rs'] = map (filepath_Join (assetsVideo am1)) files" by blast
    show ?thesis
      apply (rule exI [of _ "f # files"])
      using f h r(2) by (auto simp: markUsed_def)
  qed
qed

text \<open>
  Claim C2. In any sequence of calls of \<^verbatim>\<open>Pick\<close> on one manager, whatever the
  scenes, the visiting orders of the map and the random draws, the file names picked by
  the successful calls (the names appended to the ledger of the run identifier) are
  pairwise different and none of them was marked used before; each is marked used
  afterwards, the paths returned are these names joined to the asset directory, and no
  later call has one of them among its candidates.
\<close>

theorem Pick_never_repeats_within_run:
  fixes am :: AssetManager and calls :: "pick_call list"
  defines "am' \<equiv> snd (PickSeq am calls)"
  shows "distinct (pickedFiles am am')
       \<and> set (pickedFiles am am') \<inter> usedInRun am = {}
       \<and> usedInRun am' = usedInRun am \<union> set (pickedFiles am am')
       \<and> [p. Inr p \<leftarrow> fst (PickSeq am calls)]
           = map (filepath_Join (assetsVideo am)) (pickedFiles am am')
       \<and> set (map s_file (candidatesOf am' scene order1 order2)) \<inter> set (pickedFiles am am') = {}"
proof -
  have "PickSeq am calls = (fst (PickSeq am calls), am')"
    by (simp add: am'_def)
  from PickSeq_files [OF this] obtain files where
    h: "usageLog am' (runID am) = usageLog am (runID am) @ files"
       "usedInRun am' = usedInRun am \<union> set files"
       "distinct files" "set files \<inter> usedInRun am = {}"
       "[p. Inr p \<leftarrow> fst (PickSeq am calls)] = map (filepath_Join (assetsVideo am)) files"
    by blast
  from h(1) have p: "pickedFiles am am' = files"
    by (simp add: pickedFiles_def)
  have "set (map s_file (candidatesOf am' scene order1 order2)) \<inter> set files = {}"
    using candidates_unused [of _ am' scene order1 order2] h(2) by auto
  with h p show ?thesis by simp
qed

lemma topN_min: "topN c = min 3 (length c)"
  by (auto simp: topN_def)

lemma Pick_in_top:
  assumes a: "Pick am scene order1 order2 rnd = Inr (path, am1)"
  defines "c \<equiv> candidatesOf am scene order1 order2"
  shows "\<exists>i < min 3 (length c). path = filepath_Join (assetsVideo am) (s_file (sortScored c ! i))
            \<and> am1 = markUsed am (s_file (sortScored c ! i))"
proof -
  from a have ne: "c \<noteq> []"
    by (auto simp: Pick_def Let_def c_def split: if_splits)
  then have "0 < min 3 (length c)" by simp
  then have "rnd mod min 3 (length c) < min 3 (length c)"
    by (rule mod_less_divisor)
  then have "rnd mod topN c < min 3 (length c)"
    by (simp only: topN_min)
  moreover from a have "path = filepath_Join (assetsVideo am) (s_file (sortScored c ! (rnd mod topN c)))
      \<and> am1 = markUsed am (s_file (sortScored c ! (rnd mod topN c)))"
    by (auto simp: Pick_def Let_def c_def split: if_splits)
  ultimately show ?thesis by blast
qed

lemma Pick_reaches:
  assumes "tags am \<noteq> []" and "i < min 3 (length (candidatesOf am scene order1 order2))"
  shows "Pick am scene order1 order2 i
           = Inr (filepath_Join (assetsVideo am)
                    (s_file (sortScored (candidatesOf am scene order1 order2) ! i)),
                  markUsed am (s_file (sortScored (candidatesOf am scene order1 order2) ! i)))"
proof -
  let ?c = "candidatesOf am scene order1 order2"
  from assms have ne: "?c \<noteq> []" by auto
  from assms have "i mod topN ?c = i" by (simp add: topN_min)
  with assms ne show ?thesis
    by (simp add: Pick_def Let_def)
qed

text \<open>
  Claim C3. The score of a clip is 10 for each required tag of the scene whose lower-case
  form is among the lower-cased tags of the clip, plus 15 when the lower-cased mood is
  among them. Every clip not yet used is a candidate with that score, a score of 0
  included. \<^verbatim>\<open>sortScored\<close> orders the candidates by descending score without losing or
  adding one. A successful \<^verbatim>\<open>Pick\<close> returns the candidate at an index below
  \<open>min 3 (length c)\<close> of the sorted slice, and every such index is returned for some
  random draw.
\<close>

theorem matchScore_and_top3_pick:
  fixes am :: AssetManager and scene :: ScriptScene
    and order1 order2 :: "(string \<times> string list) list"
  defines "c \<equiv> candidatesOf am scene order1 order2"
  shows "matchScore required clipTags mood =
           10 * int (length (filter (\<lambda>r. ToLower r \<in> ToLower ` set clipTags) required))
             + (if ToLower mood \<in> ToLower ` set clipTags then 15 else 0)
       \<and> scoreCandidates am scene order1 =
           map (\<lambda>(f, clipTags).
                  \<lparr>s_file = f, s_score = matchScore (AssetTags scene) clipTags (Mood scene)\<rparr>)
               (filter (\<lambda>(f, clipTags). f \<notin> usedInRun am) order1)
       \<and> sorted_wrt (\<lambda>a b. s_score a \<ge> s_score b) (sortScored c)
       \<and> mset (sortScored c) = mset c
       \<and> (Pick am scene order1 order2 rnd = Inr (path, am1) \<longrightarrow>
           (\<exists>i < min 3 (length c).
               path = filepath_Join (assetsVideo am) (s_file (sortScored c ! i))
             \<and> am1 = markUsed am (s_file (sortScored c ! i))))
       \<and> (tags am \<noteq> [] \<and> i < min 3 (length c) \<longrightarrow>
           Pick am scene order1 order2 i
             = Inr (filepath_Join (assetsVideo am) (s_file (sortScored c ! i)),
                    markUsed am (s_file (sortScored c ! i))))"
proof (intro conjI impI)
  show "matchScore required clipTags mood =
           10 * int (length (filter (\<lambda>r. ToLower r \<in> ToLower ` set clipTags) required))
             + (if ToLower mood \<in> ToLower ` set clipTags then 15 else 0)"
    by (rule matchScore_closed)
  show "scoreCandidates am scene order1 =
           map (\<lambda>(f, clipTags).
                  \<lparr>s_file = f, s_score = matchScore (AssetTags scene) clipTags (Mood scene)\<rparr>)
               (filter (\<lambda>(f, clipTags). f \<notin> usedInRun am) order1)"
    by (rule scoreCandidates_eq)
  show "sorted_wrt (\<lambda>a b. s_score a \<ge> s_score b) (sortScored c)"
    by (rule sorted_sortScored)
  show "mset (sortScored c) = mset c"
    by (rule mset_sortScored)
next
  assume "Pick am scene order1 order2 rnd = Inr (path, am1)"
  then show "\<exists>i < min 3 (length c).
               path = filepath_Join (assetsVideo am) (s_file (sortScored c ! i))
             \<and> am1 = markUsed am (s_file (sortScored c ! i))"
    unfolding c_def by (rule Pick_in_top)
next
  assume "tags am \<noteq> [] \<and> i < min 3 (length c)"
  then show "Pick am scene order1 order2 i
             = Inr (filepath_Join (assetsVideo am) (s_file (sortScored c ! i)),
                    markUsed am (s_file (sortScored c ! i)))"
    unfolding c_def by (simp add: Pick_reaches)
qed

text \<open>
  The theorem at a pool of three clips: scores 25, 10 and 0, and the draw 1 returns the
  second best clip.
\<close>

theorem matchScore_and_top3_pick_witness:
  "tags am0 \<noteq> [] \<and> (1::nat) < min 3 (length (candidatesOf am0 sc0 (tags am0) (tags am0)))
   \<and> matchScore (AssetTags sc0) [''forest'', ''tense''] (Mood sc0) = 25
   \<and> map s_score (sortScored (candidatesOf am0 sc0 (tags am0) (tags am0))) = [25, 10, 0]
   \<and> Pick am0 sc0 (tags am0) (tags am0) 1 = Inr (''assets/video/a.mp4'', markUsed am0 ''a.mp4'')"
proof -
  have ev: "map s_file (sortScored (candidatesOf am0 sc0 (tags am0) (tags am0))) = [''b.mp4'', ''a.mp4'', ''c.mp4'']"
     "map s_score (sortScored (candidatesOf am0 sc0 (tags am0) (tags am0))) = [25, 10, 0]"
     "length (candidatesOf am0 sc0 (tags am0) (tags am0)) = 3"
    by (simp_all add: am0_def sc0_def candidatesOf_def scoreCandidates_def sortScored_def
        matchScore_def clipTagSet_def ToLower_def toLowerChar_def)
  have t: "tags am0 \<noteq> []" by (simp add: am0_def)
  have m: "matchScore (AssetTags sc0) [''forest'', ''tense''] (Mood sc0) = 25"
    by (simp add: sc0_def matchScore_def clipTagSet_def ToLower_def toLowerChar_def)
  have l: "(1::nat) < min 3 (length (candidatesOf am0 sc0 (tags am0) (tags am0)))"
    by (simp add: ev)
  have l2: "length (sortScored (candidatesOf am0 sc0 (tags am0) (tags am0))) = 3"
    by (simp add: length_sortScored ev)
  have "s_file (sortScored (candidatesOf am0 sc0 (tags am0) (tags am0)) ! 1) = ''a.mp4''"
  proof -
    have "map s_file (sortScored (candidatesOf am0 sc0 (tags am0) (tags am0))) ! 1 = ''a.mp4''"
      by (simp only: ev(1)) simp
    then show ?thesis using l2 by simp
  qed
  moreover have "assetsVideo am0 = ''assets/video''" by (simp add: am0_def)
  ultimately show ?thesis
    using matchScore_and_top3_pick [where am = am0 and scene = sc0 and ?order1.0 = "tags am0"
        and ?order2.0 = "tags am0" and i = 1] t l m ev(2)
    by (simp add: filepath_Join_def)
qed

section \<open>Evidence images: the ordered fallback chain\<close>

lemma downloadFile_result:
  "fst (downloadFile e u out s) = None \<longleftrightarrow> downloadable e u out"
  by (auto simp: downloadFile_def downloadable_def Let_def split: option.splits)

lemma downloadFile_requests:
  "requests (snd (downloadFile e u out s)) = requests s @ [u]"
  by (auto simp: downloadFile_def Let_def split: option.splits)

lemma downloadFile_files:
  "files (snd (downloadFile e u out s)) =
     (if downloadable e u out then insert out (files s) else files s)"
  by (auto simp: downloadFile_def downloadable_def Let_def split: option.splits)

lemma downloadFile_commands:
  "commands (snd (downloadFile e u out s)) = commands s"
  by (auto simp: downloadFile_def Let_def split: option.splits)

lemma downloadFirst_result:
  "fst (downloadFirst e us out s) = list_ex (\<lambda>u. downloadable e u out) us"
proof (induction us arbitrary: s)
  case Nil
  then show ?case by simp
next
  case (Cons u us)
  obtain r s1 where d: "downloadFile e u out s = (r, s1)" by (cases "downloadFile e u out s")
  with downloadFile_result [of e u out s] have "r = None \<longleftrightarrow> downloadable e u out" by simp
  with d Cons.IH [of s1] show ?case by (cases r) auto
qed

lemma downloadFirst_requests:
  "requests (snd (downloadFirst e us out s)) = requests s @ untilFirst e us out"
proof (induction us arbitrary: s)
  case Nil
  then show ?case by (simp add: untilFirst_def)
next
  case (Cons u us)
  obtain r s1 where d: "downloadFile e u out s = (r, s1)" by (cases "downloadFile e u out s")
  with downloadFile_result [of e u out s] have r: "r = None \<longleftrightarrow> downloadable e u out" by simp
  from d downloadFile_requests [of e u out s] have q: "requests s1 = requests s @ [u]" by simp
  show ?case
  proof (cases r)
    case None
    with d r q show ?thesis by (simp add: untilFirst_def)
  next
    case (Some err)
    with d r q Cons.IH [of s1] show ?thesis by (simp add: untilFirst_def)
  qed
qed

lemma searchWikipedia_ok:
  "(\<exists>img. fst (searchWikipedia e (Narration scene) dir (Index scene) s) = Inr img) \<longleftrightarrow>
     (case wikiImage e (Narration scene) of
        None \<Rightarrow> False
      | Some img \<Rightarrow> downloadable e img (wikiFile dir (Index scene)))"
proof -
  have dl: "\<And>u out s'. (case downloadFile e u out s' of (Some err, s2) \<Rightarrow> (Inl err, s2) | (None, s2) \<Rightarrow> (Inr out, s2))
      = ((if downloadable e u out then Inr out else Inl (the (fst (downloadFile e u out s')))), snd (downloadFile e u out s'))"
    subgoal for u out s'
      using downloadFile_result [of e u out s']
      by (cases "downloadFile e u out s'") (auto split: option.splits)
    done
  show ?thesis
    by (auto simp: searchWikipedia_def wikiImage_def Let_def dl split: option.splits)
qed

lemma searchWikipedia_value:
  "fst (searchWikipedia e (Narration scene) dir (Index scene) s) = Inr img \<Longrightarrow>
     img = wikiFile dir (Index scene)"
  by (auto simp: searchWikipedia_def Let_def split: option.splits if_splits prod.splits)

lemma searchWikipedia_requests:
  "requests (snd (searchWikipedia e narration dir idx s)) =
     requests s @
       (if extractSearchQuery narration = [] then []
        else wikiURL e (extractSearchQuery narration)
               # (case wikiImage e narration of None \<Rightarrow> [] | Some img \<Rightarrow> [img]))"
proof -
  have dl: "\<And>u out s'. requests (snd (case downloadFile e u out s' of
        (Some err, s2) \<Rightarrow> (Inl err, s2) | (None, s2) \<Rightarrow> (Inr out, s2))) = requests s' @ [u]"
    subgoal for u out s'
      using downloadFile_requests [of e u out s']
      by (cases "downloadFile e u out s'") (auto split: option.splits)
    done
  show ?thesis
    by (auto simp: searchWikipedia_def wikiImage_def Let_def dl split: option.splits)
qed

lemma searchGoogleImages_ok:
  "(\<exists>img. fst (searchGoogleImages e (Narration scene) (Title story) dir (Index scene) s) = Inr img) \<longleftrightarrow>
     list_ex (\<lambda>u. downloadable e u (googleFile dir (Index scene))) (searchResults e scene story)"
proof -
  have df: "\<And>us out s'. (case downloadFirst e us out s' of
        (True, s2) \<Rightarrow> (Inr out, s2) | (False, s2) \<Rightarrow> (Inl AllDownloadsFailed, s2))
      = ((if list_ex (\<lambda>u. downloadable e u out) us then Inr out else Inl AllDownloadsFailed),
         snd (downloadFirst e us out s'))"
    subgoal for us out s'
      using downloadFirst_result [of e us out s']
      by (cases "downloadFirst e us out s'") (auto split: bool.splits)
    done
  show ?thesis
    by (auto simp: searchGoogleImages_def searchResults_def Let_def df
        split: option.splits)
qed

lemma searchGoogleImages_value:
  "fst (searchGoogleImages e (Narration scene) (Title story) dir (Index scene) s) = Inr img \<Longrightarrow>
     img = googleFile dir (Index scene)"
  by (auto simp: searchGoogleImages_def Let_def
      split: option.splits if_splits prod.splits bool.splits)

lemma searchGoogleImages_requests:
  "requests (snd (searchGoogleImages e (Narration scene) (Title story) dir (Index scene) s)) =
     requests s @ serpURL e (Title story @ '' '' @ extractSearchQuery (Narration scene))
       # untilFirst e (searchResults e scene story) (googleFile dir (Index scene))"
proof -
  have df: "\<And>us out s'. requests (snd (case downloadFirst e us out s' of
        (True, s2) \<Rightarrow> (Inr out, s2) | (False, s2) \<Rightarrow> (Inl AllDownloadsFailed, s2)))
      = requests s' @ untilFirst e us out"
    subgoal for us out s'
      using downloadFirst_requests [of e us out s']
      by (cases "downloadFirst e us out s'") (auto split: bool.splits)
    done
  show ?thesis
    by (auto simp: searchGoogleImages_def searchResults_def Let_def df untilFirst_def
        split: option.splits)
qed

lemma step1_run:
  "(if ProofImageURL scene \<noteq> []
    then (case downloadFile e (ProofImageURL scene) (proofFile dir (Index scene)) s of
            (None, s') \<Rightarrow> (True, s')
          | (Some err, s') \<Rightarrow> (False, s'))
    else (False, s)) = (b, s1) \<Longrightarrow>
   b = step1 e scene dir \<and> requests s1 = requests s @ trace1 scene"
  using downloadFile_result [of e "ProofImageURL scene" "proofFile dir (Index scene)" s]
    downloadFile_requests [of e "ProofImageURL scene" "proofFile dir (Index scene)" s]
  by (cases "downloadFile e (ProofImageURL scene) (proofFile dir (Index scene)) s")
     (auto simp: step1_def trace1_def split: if_splits option.splits)

lemma step2_run:
  "searchWikipedia e (Narration scene) dir (Index scene) s1 = (r, s2) \<Longrightarrow>
   (r = Inr (wikiFile dir (Index scene)) \<and> step2 e scene dir \<or> (\<exists>err. r = Inl err) \<and> \<not> step2 e scene dir)
   \<and> requests s2 = requests s1 @ trace2 e scene"
  using searchWikipedia_ok [of e scene dir s1]
    searchWikipedia_value [of e scene dir s1]
    searchWikipedia_requests [of e "Narration scene" dir "Index scene" s1]
  by (cases r) (auto simp: step2_def trace2_def)

lemma step3_run:
  "downloadFirst e (ImageURLs story) (proofFile dir (Index scene)) s2 = (b, s3) \<Longrightarrow>
   b = step3 e scene story dir \<and> requests s3 = requests s2 @ trace3 e scene story dir"
  using downloadFirst_result [of e "ImageURLs story" "proofFile dir (Index scene)" s2]
    downloadFirst_requests [of e "ImageURLs story" "proofFile dir (Index scene)" s2]
  by (simp add: step3_def trace3_def)

lemma step4_run:
  "searchGoogleImages e (Narration scene) (Title story) dir (Index scene) s3 = (r, s4) \<Longrightarrow>
   (r = Inr (googleFile dir (Index scene)) \<and> list_ex (\<lambda>u. downloadable e u (googleFile dir (Index scene))) (searchResults e scene story)
      \<or> (\<exists>err. r = Inl err) \<and> \<not> list_ex (\<lambda>u. downloadable e u (googleFile dir (Index scene))) (searchResults e scene story))
   \<and> requests s4 = requests s3 @ serpURL e (Title story @ '' '' @ extractSearchQuery (Narration scene))
       # untilFirst e (searchResults e scene story) (googleFile dir (Index scene))"
  using searchGoogleImages_ok [of e scene story dir s3]
    searchGoogleImages_value [of e scene story dir s3]
    searchGoogleImages_requests [of e scene story dir s3]
  by (cases r) auto

lemma FetchProofImage_refines:
  "FetchProofImage e scene story dir s = (r, s') \<Longrightarrow>
     r = chainResult e scene story dir \<and> requests s' = requests s @ chainTrace e scene story dir"
proof -
  assume a: "FetchProofImage e scene story dir s = (r, s')"
  obtain b1 s1 where r1: "(if ProofImageURL scene \<noteq> []
    then (case downloadFile e (ProofImageURL scene) (proofFile dir (Index scene)) s of
            (None, s') \<Rightarrow> (True, s')
          | (Some err, s') \<Rightarrow> (False, s'))
    else (False, s)) = (b1, s1)" by fastforce
  note h1 = step1_run [OF r1]
  obtain r2 s2 where r2: "searchWikipedia e (Narration scene) dir (Index scene) s1 = (r2, s2)"
    by fastforce
  note h2 = step2_run [OF r2]
  obtain b3 s3 where r3: "downloadFirst e (ImageURLs story) (proofFile dir (Index scene)) s2 = (b3, s3)"
    by fastforce
  note h3 = step3_run [OF r3]
  obtain r4 s4 where r4: "searchGoogleImages e (Narration scene) (Title story) dir (Index scene) s3 = (r4, s4)"
    by fastforce
  note h4 = step4_run [OF r4]
  from a have a': "(r, s') =
     (if b1 then (Inr (proofFile dir (Index scene)), s1)
      else case r2 of Inr img \<Rightarrow> (Inr img, s2)
           | Inl err \<Rightarrow> (if b3 then (Inr (proofFile dir (Index scene)), s3)
                else if serpAPIKey e \<noteq> [] then
                  (case r4 of Inr img \<Rightarrow> (Inr img, s4) | Inl err \<Rightarrow> (Inl (NoProofImage (Index scene)), s4))
                else (Inl (NoProofImage (Index scene)), s3)))"
    unfolding FetchProofImage_def Let_def r1 r2 r3 r4 prod.case
    by (auto split: sum.splits if_splits bool.splits)
  show ?thesis
  proof (cases b1)
    case True
    with a' h1 show ?thesis by (simp add: chainResult_def chainTrace_def)
  next
    case b1: False
    show ?thesis
    proof (cases "step2 e scene dir")
      case True
      with a' h1 h2 b1 show ?thesis by (auto simp: chainResult_def chainTrace_def)
    next
      case n2: False
      with h2 obtain err where e2: "r2 = Inl err" by auto
      show ?thesis
      proof (cases b3)
        case True
        with a' h1 h2 h3 b1 n2 e2 show ?thesis by (auto simp: chainResult_def chainTrace_def)
      next
        case b3: False
        show ?thesis
        proof (cases "serpAPIKey e = []")
          case True
          with a' h1 h2 h3 b1 n2 e2 b3 show ?thesis
            by (auto simp: chainResult_def chainTrace_def step4_def trace4_def)
        next
          case False
          with a' h1 h2 h3 h4 b1 n2 e2 b3 show ?thesis
            by (cases r4) (auto simp: chainResult_def chainTrace_def step4_def trace4_def)
        qed
      qed
    qed
  qed
qed

lemmas fmt_simps = fmt03d_def fmt02d_def padZero_def showNat.simps digitChar_def numeral_2_eq_2 numeral_3_eq_3
  showInt_def

lemma fmt03d_seven: "fmt03d 7 = ''007''"
  by (simp add: fmt_simps)

lemma proofFile_scene0: "proofFile ''out'' (Index proofScene0) = ''out/proof_007.jpg''"
  by (simp add: proofFile_def proofScene0_def filepath_Join_def fmt_simps)

lemma downloadable_env0: "downloadable env0 ''http://a/s2.jpg'' out \<and> \<not> downloadable env0 ''http://a/own.jpg'' out
   \<and> \<not> downloadable env0 ''http://a/s1.jpg'' out"
  by (simp add: downloadable_def env0_def)

lemma keptWords_example: "keptWords ''Nobody knew that Detective Marlowe had visited the old harbour warehouse, twice!'' = [''knew'', ''detective'', ''marlowe'', ''visited'', ''harbour'', ''warehouse'', ''twice'']"
  by (simp add: keptWords_def Fields_def cleanWord_def Trim_def ToLower_def toLowerChar_def filler_def isSpace_def)

lemma query_scene0: "extractSearchQuery (Narration proofScene0) = []"
  by (simp add: proofScene0_def extractSearchQuery_def keptWords_def Fields_def cleanWord_def Trim_def ToLower_def toLowerChar_def filler_def isSpace_def)

lemma chainResult_example: "chainResult env0 proofScene0 story0 ''out'' = Inr ''out/proof_007.jpg''"
  using downloadable_env0 query_scene0 proofFile_scene0
  by (simp add: chainResult_def step1_def step2_def step3_def wikiImage_def story0_def)

lemma chainTrace_example: "chainTrace env0 proofScene0 story0 ''out'' = [''http://a/own.jpg'', ''http://a/s1.jpg'', ''http://a/s2.jpg'']"
  using downloadable_env0 query_scene0
  by (simp add: chainTrace_def trace1_def trace2_def trace3_def untilFirst_def step1_def step2_def step3_def wikiImage_def story0_def proofScene0_def)

lemma extractSearchQuery_take: "extractSearchQuery text = Join (take 4 (keptWords text)) '' ''"
  by (simp add: extractSearchQuery_def Let_def)

lemma keptWords_content: "w \<in> set (keptWords text) \<Longrightarrow> w \<notin> set filler \<and> 3 < length w"
  by (auto simp: keptWords_def)

lemma downloadable_size:
  "downloadable e u out \<Longrightarrow>
     \<exists>resp. httpGet e u = Some resp \<and> status resp = 200 \<and> 1000 \<le> length (body resp)"
  by (auto simp: downloadable_def split: option.splits)

lemma chainResult_NotFound:
  "chainResult e scene story dir = Inl err \<longleftrightarrow>
     err = NoProofImage (Index scene) \<and> \<not> step1 e scene dir \<and> \<not> step2 e scene dir
       \<and> \<not> step3 e scene story dir \<and> \<not> step4 e scene story dir"
  by (auto simp: chainResult_def)

text \<open>
  Claim C4. \<^verbatim>\<open>FetchProofImage\<close> returns what the ordered chain of four steps returns: the
  scene's own URL when it is present and downloads, else the image of the knowledge-base
  summary found for the query of the narration, else the first of the story's image
  URLs that downloads, else, only when an API key is configured, the first image-search
  result that downloads; the requests it sends are those of the steps up to the first
  that succeeds, in this order. It returns an error exactly when all four steps fail. A
  download succeeds only on status 200 with a body of at least 1000 bytes. The query is
  made of the first four words kept by \<^verbatim>\<open>extractSearchQuery\<close>, none of which is a filler
  word or shorter than four bytes.
\<close>

theorem FetchProofImage_ordered_chain:
  "fst (FetchProofImage e scene story dir s) = chainResult e scene story dir
   \<and> requests (snd (FetchProofImage e scene story dir s)) = requests s @ chainTrace e scene story dir
   \<and> ((\<exists>err. fst (FetchProofImage e scene story dir s) = Inl err)
        \<longleftrightarrow> \<not> step1 e scene dir \<and> \<not> step2 e scene dir
            \<and> \<not> step3 e scene story dir \<and> \<not> step4 e scene story dir)
   \<and> ((fst (downloadFile e u out s) = None) \<longleftrightarrow> downloadable e u out)
   \<and> (downloadable e u out \<longrightarrow>
        (\<exists>resp. httpGet e u = Some resp \<and> status resp = 200 \<and> 1000 \<le> length (body resp)))
   \<and> extractSearchQuery text = Join (take 4 (keptWords text)) '' ''
   \<and> (\<forall>w \<in> set (keptWords text). w \<notin> set filler \<and> 3 < length w)"
proof -
  have r: "FetchProofImage e scene story dir s
      = (fst (FetchProofImage e scene story dir s), snd (FetchProofImage e scene story dir s))"
    by simp
  note h = FetchProofImage_refines [OF r]
  from h have "(\<exists>err. fst (FetchProofImage e scene story dir s) = Inl err)
        \<longleftrightarrow> \<not> step1 e scene dir \<and> \<not> step2 e scene dir
            \<and> \<not> step3 e scene story dir \<and> \<not> step4 e scene story dir"
    by (simp add: chainResult_NotFound)
  with h show ?thesis
    using downloadFile_result [of e u out s] downloadable_size [of e u out]
      extractSearchQuery_take [of "text"] keptWords_content [of _ "text"]
    by blast
qed

text \<open>
  The theorem at a scene whose own URL answers with 999 bytes and whose narration gives
  no query: the second story image is the first download that succeeds.
\<close>

theorem FetchProofImage_ordered_chain_witness:
  "downloadable env0 ''http://a/s2.jpg'' ''out/proof_007.jpg''
   \<and> ''knew'' \<in> set (keptWords ''Nobody knew that Detective Marlowe had visited the old harbour warehouse, twice!'')
   \<and> fst (FetchProofImage env0 proofScene0 story0 ''out'' sys0) = Inr ''out/proof_007.jpg''
   \<and> requests (snd (FetchProofImage env0 proofScene0 story0 ''out'' sys0))
       = [''http://a/own.jpg'', ''http://a/s1.jpg'', ''http://a/s2.jpg'']
   \<and> (\<exists>resp. httpGet env0 ''http://a/s2.jpg'' = Some resp \<and> status resp = 200 \<and> 1000 \<le> length (body resp))
   \<and> extractSearchQuery ''Nobody knew that Detective Marlowe had visited the old harbour warehouse, twice!''
       = ''knew detective marlowe visited''"
proof -
  have k: "keptWords ''Nobody knew that Detective Marlowe had visited the old harbour warehouse, twice!''
      = [''knew'', ''detective'', ''marlowe'', ''visited'', ''harbour'', ''warehouse'', ''twice'']"
    by (rule keptWords_example)
  have d: "downloadable env0 ''http://a/s2.jpg'' ''out/proof_007.jpg''"
    using downloadable_env0 by simp
  have q: "requests sys0 = []" by (simp add: sys0_def)
  show ?thesis
    using FetchProofImage_ordered_chain [of env0 proofScene0 story0 "''out''" sys0
        "''http://a/s2.jpg''" "''out/proof_007.jpg''"
        "''Nobody knew that Detective Marlowe had visited the old harbour warehouse, twice!''"]
      d chainResult_example chainTrace_example q
    by (simp add: k)
qed

section \<open>Scene transforms: trim, loop and zoom\<close>




lemma clipCommand_unmeasured:
  assumes "ffprobe e clipPath = None"
  shows "clipCommand e clipPath scene dir
           = ClipTrim clipPath (targetDuration scene) (clipFile dir (Index scene))"
  using assms by (simp add: clipCommand_def Let_def)


lemma targetDuration_pos: "0 < targetDuration scene"
  by (simp add: targetDuration_def)

















section \<open>Evidence overlay timing\<close>












section \<open>The resolver and the overlay step\<close>

subsection \<open>Files only appear, and what a step returns it has created\<close>

lemma runCmd_files:
  "runCmd e c s = (ok, s') \<Longrightarrow>
     files s \<subseteq> files s' \<and> (ok \<longrightarrow> cmdOutput c \<in> files s') \<and> (\<not> ok \<longrightarrow> files s' = files s)
     \<and> ok = ffmpeg e c \<and> commands s' = commands s @ [c] \<and> requests s' = requests s"
  by (auto simp: runCmd_def split: if_splits)

lemma cmdOutput_clipCommand:
  "cmdOutput (clipCommand e clipPath scene dir) = clipFile dir (Index scene)"
  by (simp add: clipCommand_def cmdOutput_def Let_def)

lemma prepareVideoClip_files:
  assumes "prepareVideoClip e clipPath scene dir s = (r, s')"
  shows "files s \<subseteq> files s' \<and> (\<forall>p. r = Inr p \<longrightarrow> p \<in> files s')"
proof -
  obtain ok s1 where c: "runCmd e (clipCommand e clipPath scene dir) s = (ok, s1)" by fastforce
  from runCmd_files [OF c] assms c show ?thesis
    by (cases ok) (auto simp: prepareVideoClip_def cmdOutput_clipCommand)
qed

lemma prepareImageWithKenBurns_files:
  assumes "prepareImageWithKenBurns e cfg img scene dir s = (r, s')"
  shows "files s \<subseteq> files s' \<and> (\<forall>p. r = Inr p \<longrightarrow> p \<in> files s')"
proof -
  obtain ok s1 where c: "runCmd e (kenBurnsCommand cfg img scene dir) s = (ok, s1)" by fastforce
  from runCmd_files [OF c] assms c show ?thesis
    by (cases ok) (auto simp: prepareImageWithKenBurns_def kenBurnsCommand_def cmdOutput_def)
qed

lemma addSourceCredit_files:
  assumes "addSourceCredit e img scene story dir s = (r, s')"
  shows "files s \<subseteq> files s' \<and> (\<forall>p. r = Inr p \<longrightarrow> p \<in> files s')"
proof -
  obtain ok s1 where c: "runCmd e (SourceCredit img (escapeFFmpegText (creditText story))
      (creditedFile dir (Index scene))) s = (ok, s1)" by fastforce
  from runCmd_files [OF c] assms c show ?thesis
    by (cases ok) (auto simp: addSourceCredit_def cmdOutput_def Let_def)
qed

lemma createFallbackFrame_files:
  assumes "createFallbackFrame e dir i s = (p, s')"
  shows "files s \<subseteq> files s' \<and> p = fallbackFile dir i
       \<and> (\<not> ffmpeg e (FallbackFrame (fallbackFile dir i)) \<longrightarrow> files s' = files s)
       \<and> commands s' = commands s @ [FallbackFrame (fallbackFile dir i)]"
proof -
  obtain ok s1 where c: "runCmd e (FallbackFrame (fallbackFile dir i)) s = (ok, s1)" by fastforce
  from runCmd_files [OF c] assms c show ?thesis
    by (auto simp: createFallbackFrame_def Let_def)
qed

lemma downloadFile_mono: "files s \<subseteq> files (snd (downloadFile e u out s))"
  by (auto simp: downloadFile_def Let_def split: option.splits)

lemma downloadFile_created:
  "fst (downloadFile e u out s) = None \<Longrightarrow> out \<in> files (snd (downloadFile e u out s))"
  by (auto simp: downloadFile_def Let_def split: option.splits if_splits)

lemma downloadFirst_files:
  "downloadFirst e us out s = (ok, s') \<Longrightarrow> files s \<subseteq> files s' \<and> (ok \<longrightarrow> out \<in> files s')"
proof (induction us arbitrary: s)
  case Nil
  then show ?case by simp
next
  case (Cons u us)
  obtain r s1 where d: "downloadFile e u out s = (r, s1)" by fastforce
  from d downloadFile_mono [of s e u out] have m: "files s \<subseteq> files s1" by simp
  show ?case
  proof (cases r)
    case None
    with d downloadFile_created [of e u out s] Cons.prems m show ?thesis by auto
  next
    case (Some err)
    with d Cons.prems have "downloadFirst e us out s1 = (ok, s')" by simp
    from Cons.IH [OF this] m show ?thesis by auto
  qed
qed

lemma searchWikipedia_files:
  assumes "searchWikipedia e narration dir idx s = (r, s')"
  shows "files s \<subseteq> files s' \<and> (\<forall>p. r = Inr p \<longrightarrow> p \<in> files s')"
proof -
  have dl: "\<And>u out s0 r0 s2. (case downloadFile e u out s0 of
        (Some err, s2) \<Rightarrow> (Inl err, s2) | (None, s2) \<Rightarrow> (Inr out, s2)) = (r0, s2)
      \<Longrightarrow> files s0 \<subseteq> files s2 \<and> (\<forall>p. r0 = Inr p \<longrightarrow> p \<in> files s2)"
    subgoal for u out s0 r0 s2
      using downloadFile_mono [of s0 e u out] downloadFile_created [of e u out s0]
      by (cases "downloadFile e u out s0") (auto split: option.splits)
    done
  from assms show ?thesis
    by (auto simp: searchWikipedia_def Let_def split: option.splits if_splits dest!: dl)
       (meson subsetD)+
qed

lemma searchGoogleImages_files:
  assumes "searchGoogleImages e narration title dir idx s = (r, s')"
  shows "files s \<subseteq> files s' \<and> (\<forall>p. r = Inr p \<longrightarrow> p \<in> files s')"
proof -
  have df: "\<And>us out s0 r0 s2. (case downloadFirst e us out s0 of
        (True, s2) \<Rightarrow> (Inr out, s2) | (False, s2) \<Rightarrow> (Inl AllDownloadsFailed, s2)) = (r0, s2)
      \<Longrightarrow> files s0 \<subseteq> files s2 \<and> (\<forall>p. r0 = Inr p \<longrightarrow> p \<in> files s2)"
    subgoal for us out s0 r0 s2
      using downloadFirst_files [of e us out s0]
      by (cases "downloadFirst e us out s0") (auto split: bool.splits)
    done
  from assms show ?thesis
    by (auto simp: searchGoogleImages_def Let_def split: option.splits if_splits dest!: df)
qed


lemma FetchProofImage_files:
  assumes "FetchProofImage e scene story dir s = (r, s')"
  shows "files s \<subseteq> files s' \<and> (\<forall>p. r = Inr p \<longrightarrow> p \<in> files s')"
proof -
  obtain b1 s1 where r1: "(if ProofImageURL scene \<noteq> []
    then (case downloadFile e (ProofImageURL scene) (proofFile dir (Index scene)) s of
            (None, s') \<Rightarrow> (True, s')
          | (Some err, s') \<Rightarrow> (False, s'))
    else (False, s)) = (b1, s1)" by fastforce
  have h1: "files s \<subseteq> files s1 \<and> (b1 \<longrightarrow> proofFile dir (Index scene) \<in> files s1)"
    using r1 downloadFile_mono [of s e "ProofImageURL scene" "proofFile dir (Index scene)"]
      downloadFile_created [of e "ProofImageURL scene" "proofFile dir (Index scene)" s]
    by (cases "downloadFile e (ProofImageURL scene) (proofFile dir (Index scene)) s")
       (auto split: if_splits option.splits)
  obtain r2 s2 where r2: "searchWikipedia e (Narration scene) dir (Index scene) s1 = (r2, s2)"
    by fastforce
  note h2 = searchWikipedia_files [OF r2]
  obtain b3 s3 where r3: "downloadFirst e (ImageURLs story) (proofFile dir (Index scene)) s2 = (b3, s3)"
    by fastforce
  note h3 = downloadFirst_files [OF r3]
  obtain r4 s4 where r4: "searchGoogleImages e (Narration scene) (Title story) dir (Index scene) s3 = (r4, s4)"
    by fastforce
  note h4 = searchGoogleImages_files [OF r4]
  from assms have a': "(r, s') =
     (if b1 then (Inr (proofFile dir (Index scene)), s1)
      else case r2 of Inr img \<Rightarrow> (Inr img, s2)
           | Inl err \<Rightarrow> (if b3 then (Inr (proofFile dir (Index scene)), s3)
                else if serpAPIKey e \<noteq> [] then
                  (case r4 of Inr img \<Rightarrow> (Inr img, s4) | Inl err \<Rightarrow> (Inl (NoProofImage (Index scene)), s4))
                else (Inl (NoProofImage (Index scene)), s3)))"
    unfolding FetchProofImage_def Let_def r1 r2 r3 r4 prod.case
    by (auto split: sum.splits if_splits bool.splits)
  have m2: "files s \<subseteq> files s2" using h1 h2 by blast
  have m3: "files s \<subseteq> files s3" using m2 h3 by blast
  have m4: "files s \<subseteq> files s4" using m3 h4 by blast
  show ?thesis
  proof (cases b1)
    case True
    with a' h1 show ?thesis by simp
  next
    case b1: False
    show ?thesis
    proof (cases r2)
      case (Inr img)
      with a' b1 h2 m2 show ?thesis by simp
    next
      case e2: (Inl err2)
      show ?thesis
      proof (cases b3)
        case True
        with a' b1 e2 h3 m3 show ?thesis by simp
      next
        case b3: False
        show ?thesis
        proof (cases "serpAPIKey e = []")
          case True
          with a' b1 e2 b3 m3 show ?thesis by simp
        next
          case False
          with a' b1 e2 b3 h4 m4 show ?thesis by (cases r4) simp_all
        qed
      qed
    qed
  qed
qed

lemma downloadImage_mono: "files s \<subseteq> files (snd (downloadImage e u out n s))"
  by (auto simp: downloadImage_def Let_def split: option.splits)

lemma downloadImage_created:
  "fst (downloadImage e u out n s) = None \<Longrightarrow> out \<in> files (snd (downloadImage e u out n s))"
  by (auto simp: downloadImage_def Let_def split: option.splits if_splits)

lemma downloadImage_commands: "commands (snd (downloadImage e u out n s)) = commands s"
  by (auto simp: downloadImage_def Let_def split: option.splits)

lemma tryAttempts_files:
  "tryAttempts e u out ns s = (ok, s') \<Longrightarrow>
     files s \<subseteq> files s' \<and> (ok \<longrightarrow> out \<in> files s') \<and> commands s' = commands s"
proof (induction ns arbitrary: s)
  case Nil
  then show ?case by simp
next
  case (Cons n ns)
  obtain r s1 where d: "downloadImage e u out n s = (r, s1)" by fastforce
  from d downloadImage_mono [of s e u out n] downloadImage_commands [of e u out n s]
  have m: "files s \<subseteq> files s1" "commands s1 = commands s" by simp_all
  show ?case
  proof (cases r)
    case None
    with d downloadImage_created [of e u out n s] Cons.prems m show ?thesis by auto
  next
    case (Some err)
    with d Cons.prems have "tryAttempts e u out ns s1 = (ok, s')" by simp
    from Cons.IH [OF this] m show ?thesis by auto
  qed
qed

lemma Fetch_files:
  assumes "Fetch e scene dir s = (r, s')"
  shows "files s \<subseteq> files s' \<and> (\<forall>p. r = Inr p \<longrightarrow> p \<in> files s') \<and> commands s' = commands s"
proof (cases "ImagePrompt scene = []")
  case True
  with assms show ?thesis by (auto simp: Fetch_def)
next
  case False
  obtain ok s1 where t: "tryAttempts e (pollinationsURL e scene) (dramaticFile dir (Index scene))
      [1, 2, 3] s = (ok, s1)" by fastforce
  from tryAttempts_files [OF t] assms False t show ?thesis
    by (cases ok) (auto simp: Fetch_def Let_def)
qed

lemma fetchOrFallback_files:
  assumes "fetchOrFallback e dir i scene s = (img, s')"
  shows "files s \<subseteq> files s'"
proof -
  obtain r s1 where f: "Fetch e scene dir s = (r, s1)" by fastforce
  note hf = Fetch_files [OF f]
  show ?thesis
  proof (cases r)
    case (Inl err)
    with assms f have c: "createFallbackFrame e dir i s1 = (img, s')"
      by (simp add: fetchOrFallback_def)
    from createFallbackFrame_files [OF c] hf show ?thesis by blast
  next
    case (Inr p)
    with assms f hf show ?thesis by (simp add: fetchOrFallback_def)
  qed
qed

lemma withDefaultPrompt_fields [simp]:
  "SceneType (withDefaultPrompt p scene) = SceneType scene"
  "VisualFile (withDefaultPrompt p scene) = VisualFile scene"
  "Index (withDefaultPrompt p scene) = Index scene"
  by (simp_all add: withDefaultPrompt_def)

lemma resolveDramatic_props:
  assumes "resolveDramatic e cfg dir i scene am s = (r, scene', am', s')"
  shows "files s \<subseteq> files s'
       \<and> (VisualFile scene' = VisualFile scene \<or> VisualFile scene' \<in> files s')
       \<and> SceneType scene' = SceneType scene
       \<and> (r = None \<longrightarrow> VisualFile scene' \<in> files s')"
proof -
  obtain img s1 where f: "fetchOrFallback e dir i scene s = (img, s1)" by fastforce
  obtain rp s2 where p: "prepareImageWithKenBurns e cfg img scene dir s1 = (rp, s2)" by fastforce
  from fetchOrFallback_files [OF f] prepareImageWithKenBurns_files [OF p]
  have m: "files s \<subseteq> files s2" "\<forall>q. rp = Inr q \<longrightarrow> q \<in> files s2" by auto
  from assms f p m show ?thesis
    by (cases rp) (auto simp: resolveDramatic_def)
qed

lemma resolveCinematic_props:
  assumes "resolveCinematic e cfg dir i scene am s = (r, scene', am', s')"
  shows "files s \<subseteq> files s'
       \<and> (VisualFile scene' = VisualFile scene \<or> VisualFile scene' \<in> files s')
       \<and> (SceneType scene' = SceneType scene \<or> SceneType scene' = ''dramatic'')
       \<and> (r = None \<longrightarrow> VisualFile scene' \<in> files s')"
proof (cases "Pick am scene (mapOrder1 e i) (mapOrder2 e i) (randIntn e i)")
  case (Inl err)
  let ?sc = "withDefaultPrompt (defaultClipPrompt scene) (scene\<lparr>SceneType := ''dramatic''\<rparr>)"
  obtain rf s1 where f: "Fetch e ?sc dir s = (rf, s1)" by fastforce
  note hf = Fetch_files [OF f]
  show ?thesis
  proof (cases rf)
    case fe: (Inl ferr)
    with assms Inl f hf show ?thesis
      by (auto simp: resolveCinematic_def Let_def)
  next
    case (Inr img)
    obtain rp s2 where p: "prepareImageWithKenBurns e cfg img ?sc dir s1 = (rp, s2)" by fastforce
    from hf prepareImageWithKenBurns_files [OF p]
    have m: "files s \<subseteq> files s2" "\<forall>q. rp = Inr q \<longrightarrow> q \<in> files s2" by auto
    from assms Inl f Inr p m show ?thesis
      by (cases rp) (auto simp: resolveCinematic_def Let_def)
  qed
next
  case (Inr pa)
  obtain clip am1 where pa: "pa = (clip, am1)" by (cases pa)
  obtain rp s1 where p: "prepareVideoClip e clip scene dir s = (rp, s1)" by fastforce
  from prepareVideoClip_files [OF p] assms Inr pa p show ?thesis
    by (cases rp) (auto simp: resolveCinematic_def)
qed

lemma resolveProof_props:
  assumes "resolveProof e cfg story dir i scene am s = (r, scene', am', s')"
  shows "files s \<subseteq> files s'
       \<and> (VisualFile scene' = VisualFile scene \<or> VisualFile scene' \<in> files s')
       \<and> (SceneType scene' = (if \<exists>img. chainResult e scene story dir = Inr img
                              then SceneType scene else ''dramatic''))
       \<and> (r = None \<longrightarrow> VisualFile scene' \<in> files s')"
proof -
  obtain rf s1 where f: "FetchProofImage e scene story dir s = (rf, s1)" by fastforce
  from FetchProofImage_refines [OF f] have c: "rf = chainResult e scene story dir" by simp
  note hf = FetchProofImage_files [OF f]
  show ?thesis
  proof (cases rf)
    case (Inl err)
    let ?sc = "withDefaultPrompt defaultProofPrompt (scene\<lparr>SceneType := ''dramatic''\<rparr>)"
    obtain img s2 where g: "fetchOrFallback e dir i ?sc s1 = (img, s2)" by fastforce
    obtain rp s3 where p: "prepareImageWithKenBurns e cfg img ?sc dir s2 = (rp, s3)" by fastforce
    from hf fetchOrFallback_files [OF g] prepareImageWithKenBurns_files [OF p]
    have m: "files s \<subseteq> files s3" "\<forall>q. rp = Inr q \<longrightarrow> q \<in> files s3" by auto
    from assms f Inl g p m c show ?thesis
      by (cases rp) (auto simp: resolveProof_def Let_def)
  next
    case (Inr img)
    obtain rc s2 where a: "addSourceCredit e img scene story dir s1 = (rc, s2)" by fastforce
    from hf Inr addSourceCredit_files [OF a]
    have m: "files s \<subseteq> files s2" "img \<in> files s2" "\<forall>q. rc = Inr q \<longrightarrow> q \<in> files s2" by auto
    from assms f Inr a m c show ?thesis
      by (cases rc) (auto simp: resolveProof_def)
  qed
qed

lemma resolveScene_props:
  assumes "resolveScene e cfg story dir i scene am s = (r, scene', am', s')"
  shows "files s \<subseteq> files s'
       \<and> (VisualFile scene' = VisualFile scene \<or> VisualFile scene' \<in> files s')
       \<and> (SceneType scene' = ''proof'' \<longleftrightarrow>
            SceneType scene = ''proof'' \<and> (\<exists>img. chainResult e scene story dir = Inr img))
       \<and> (SceneType scene = ''proof'' \<and> (\<exists>err. chainResult e scene story dir = Inl err)
            \<longrightarrow> SceneType scene' = ''dramatic'')"
proof -
  consider (c) "SceneType scene = ''cinematic''" | (d) "SceneType scene = ''dramatic''"
    | (p) "SceneType scene = ''proof''"
    | (o) "SceneType scene \<noteq> ''cinematic''" "SceneType scene \<noteq> ''dramatic''"
          "SceneType scene \<noteq> ''proof''" by blast
  then show ?thesis
  proof cases
    case c
    with assms have "resolveCinematic e cfg dir i scene am s = (r, scene', am', s')"
      by (simp add: resolveScene_def)
    from resolveCinematic_props [OF this] c show ?thesis by auto
  next
    case d
    with assms have "resolveDramatic e cfg dir i scene am s = (r, scene', am', s')"
      by (simp add: resolveScene_def)
    from resolveDramatic_props [OF this] d show ?thesis by auto
  next
    case p
    with assms have "resolveProof e cfg story dir i scene am s = (r, scene', am', s')"
      by (simp add: resolveScene_def)
    from resolveProof_props [OF this] p show ?thesis
      by (cases "chainResult e scene story dir") auto
  next
    case o
    with assms show ?thesis by (auto simp: resolveScene_def)
  qed
qed

lemma runScenes_files:
  "runScenes e cfg story dir i scenes am s = (r, scenes', am', s') \<Longrightarrow>
     files s \<subseteq> files s'
     \<and> list_all2 (\<lambda>sc sc'. VisualFile sc' = VisualFile sc \<or> VisualFile sc' \<in> files s')
          scenes scenes'"
proof (induction scenes arbitrary: i am s r scenes' am' s')
  case Nil
  then show ?case by simp
next
  case (Cons scene rest)
  obtain r1 scene1 am1 s1 where
    rs: "resolveScene e cfg story dir i scene am s = (r1, scene1, am1, s1)"
    by (metis prod_cases4)
  note h = resolveScene_props [OF rs]
  show ?case
  proof (cases r1)
    case (Some err)
    with Cons.prems rs have eq: "scenes' = scene1 # rest" "s' = s1" by simp_all
    have "list_all2 (\<lambda>sc sc'. VisualFile sc' = VisualFile sc \<or> VisualFile sc' \<in> files s1) rest rest"
      by (simp add: list_all2_same)
    with h eq show ?thesis by simp
  next
    case None
    obtain r2 rest2 am2 s2 where
      rr: "runScenes e cfg story dir (Suc i) rest am1 s1 = (r2, rest2, am2, s2)"
      by (metis prod_cases4)
    with Cons.prems rs None have eq: "scenes' = scene1 # rest2" "s' = s2" by simp_all
    from Cons.IH [OF rr] have ih: "files s1 \<subseteq> files s2"
      "list_all2 (\<lambda>sc sc'. VisualFile sc' = VisualFile sc \<or> VisualFile sc' \<in> files s2) rest rest2"
      by simp_all
    from h ih(1) have "files s \<subseteq> files s2"
      "VisualFile scene1 = VisualFile scene \<or> VisualFile scene1 \<in> files s2" by auto
    with ih eq show ?thesis by simp
  qed
qed


subsection \<open>The overlay step\<close>




lemma Run_files:
  assumes "Run e a script story outputDir s = (r, script', a', s')"
  shows "list_all2 (\<lambda>sc sc'. VisualFile sc' = VisualFile sc \<or> VisualFile sc' \<in> files s')
           (Scenes script) (Scenes script')"
proof (cases "mkdirAll e (filepath_Join outputDir ''visuals'')")
  case False
  with assms have "script' = script" by (simp add: Run_def Let_def)
  then show ?thesis by (simp add: list_all2_same)
next
  case True
  obtain r1 scenes1 am1 s1 where rs: "runScenes e (a_cfg a) story (filepath_Join outputDir ''visuals'')
      0 (Scenes script) (assetManager a) s = (r1, scenes1, am1, s1)"
    by (metis prod_cases4)
  with assms True have "Scenes script' = scenes1" "s' = s1"
    by (auto simp: Run_def Let_def)
  with runScenes_files [OF rs] show ?thesis by simp
qed



lemma Join_neq_fallback:
  "c \<noteq> CHR ''f'' \<Longrightarrow> filepath_Join dir (c # rest) \<noteq> fallbackFile dir i"
  by (simp add: filepath_Join_def fallbackFile_def)

lemma names_neq_fallback:
  "kenburnsFile dir n \<noteq> fallbackFile dir i"
  "clipFile dir n \<noteq> fallbackFile dir i"
  "proofFile dir n \<noteq> fallbackFile dir i"
  "wikiFile dir n \<noteq> fallbackFile dir i"
  "googleFile dir n \<noteq> fallbackFile dir i"
  "creditedFile dir n \<noteq> fallbackFile dir i"
  "[] \<noteq> fallbackFile dir i"
  by (simp_all add: kenburnsFile_def clipFile_def proofFile_def wikiFile_def googleFile_def
      creditedFile_def filepath_Join_def fallbackFile_def)

lemma chainResult_value:
  "chainResult e scene story dir = Inr img \<Longrightarrow>
     img = proofFile dir (Index scene) \<or> img = wikiFile dir (Index scene)
       \<or> img = googleFile dir (Index scene)"
  by (auto simp: chainResult_def split: if_splits)

lemma prepareImageWithKenBurns_value:
  "prepareImageWithKenBurns e cfg img scene dir s = (Inr p, s') \<Longrightarrow> p = kenburnsFile dir (Index scene)"
  by (auto simp: prepareImageWithKenBurns_def split: prod.splits bool.splits)

lemma prepareVideoClip_value:
  "prepareVideoClip e clip scene dir s = (Inr p, s') \<Longrightarrow> p = clipFile dir (Index scene)"
  by (auto simp: prepareVideoClip_def split: prod.splits bool.splits)

lemma addSourceCredit_value:
  "addSourceCredit e img scene story dir s = (Inr p, s') \<Longrightarrow> p = creditedFile dir (Index scene)"
  by (auto simp: addSourceCredit_def Let_def split: prod.splits bool.splits)

lemma resolveScene_visual_value:
  assumes "resolveScene e cfg story dir i scene am s = (r, scene', am', s')"
  shows "VisualFile scene' = VisualFile scene
       \<or> (\<exists>n. VisualFile scene' \<in> {kenburnsFile dir n, clipFile dir n, proofFile dir n,
             wikiFile dir n, googleFile dir n, creditedFile dir n})"
proof -
  consider (c) "SceneType scene = ''cinematic''" | (d) "SceneType scene = ''dramatic''"
    | (p) "SceneType scene = ''proof''"
    | (o) "SceneType scene \<noteq> ''cinematic''" "SceneType scene \<noteq> ''dramatic''"
          "SceneType scene \<noteq> ''proof''" by blast
  then show ?thesis
  proof cases
    case c
    with assms have a: "resolveCinematic e cfg dir i scene am s = (r, scene', am', s')"
      by (simp add: resolveScene_def)
    then show ?thesis
      by (auto simp: resolveCinematic_def Let_def split: sum.splits prod.splits
          dest!: prepareImageWithKenBurns_value prepareVideoClip_value)
  next
    case d
    with assms have a: "resolveDramatic e cfg dir i scene am s = (r, scene', am', s')"
      by (simp add: resolveScene_def)
    then show ?thesis
      by (auto simp: resolveDramatic_def split: sum.splits prod.splits
          dest!: prepareImageWithKenBurns_value)
  next
    case p
    with assms have a: "resolveProof e cfg story dir i scene am s = (r, scene', am', s')"
      by (simp add: resolveScene_def)
    obtain rf s1 where f: "FetchProofImage e scene story dir s = (rf, s1)" by fastforce
    from FetchProofImage_refines [OF f] have cr: "rf = chainResult e scene story dir" by simp
    show ?thesis
    proof (cases rf)
      case (Inl err)
      with a f show ?thesis
        by (auto simp: resolveProof_def Let_def split: sum.splits prod.splits
            dest!: prepareImageWithKenBurns_value)
    next
      case (Inr img)
      with cr chainResult_value [of e scene story dir img]
      have "img = proofFile dir (Index scene) \<or> img = wikiFile dir (Index scene)
          \<or> img = googleFile dir (Index scene)" by simp
      with a f Inr show ?thesis
        by (auto simp: resolveProof_def split: sum.splits prod.splits dest!: addSourceCredit_value)
    qed
  next
    case o
    with assms show ?thesis by (auto simp: resolveScene_def)
  qed
qed

text \<open>
  Claim C10 as stated fails: whatever the outside world answers, a scene that enters the
  resolver with an empty visual file leaves it either with an empty visual file or with
  one that was created, by a download or by a subprocess that exited with status 0; and
  its visual file is never the path returned by \<^verbatim>\<open>createFallbackFrame\<close>.
\<close>

theorem resolver_visual_file_is_created:
  "\<forall>e cfg story dir i scene am s.
      (VisualFile (fst (snd (resolveScene e cfg story dir i (scene\<lparr>VisualFile := []\<rparr>) am s))) = []
       \<or> VisualFile (fst (snd (resolveScene e cfg story dir i (scene\<lparr>VisualFile := []\<rparr>) am s)))
            \<in> files (snd (snd (snd (resolveScene e cfg story dir i (scene\<lparr>VisualFile := []\<rparr>) am s)))))
    \<and> VisualFile (fst (snd (resolveScene e cfg story dir i (scene\<lparr>VisualFile := []\<rparr>) am s)))
         \<noteq> fallbackFile dir i"
proof (intro allI)
  fix e cfg story dir i and scene :: ScriptScene and am s
  let ?sc = "scene\<lparr>VisualFile := []\<rparr>"
  obtain r scene' am' s' where rs: "resolveScene e cfg story dir i ?sc am s = (r, scene', am', s')"
    by (metis prod_cases4)
  from resolveScene_props [OF rs] have 1: "VisualFile scene' = [] \<or> VisualFile scene' \<in> files s'"
    by simp
  from resolveScene_visual_value [OF rs] have 2: "VisualFile scene' \<noteq> fallbackFile dir i"
    using names_neq_fallback by auto
  from 1 2 rs
  show "(VisualFile (fst (snd (resolveScene e cfg story dir i ?sc am s))) = []
       \<or> VisualFile (fst (snd (resolveScene e cfg story dir i ?sc am s)))
            \<in> files (snd (snd (snd (resolveScene e cfg story dir i ?sc am s)))))
    \<and> VisualFile (fst (snd (resolveScene e cfg story dir i ?sc am s))) \<noteq> fallbackFile dir i"
    by simp
qed

text \<open>
  Claim C10, as the code has it. \<^verbatim>\<open>createFallbackFrame\<close> returns its output path whatever
  the subprocess did, and when the subprocess fails no file is created, so the image
  path handed to the zoom transform may name a file that does not exist. The visual file
  of a scene is set from the transform only: after \<^verbatim>\<open>Run\<close>, with or without an error, every
  scene whose visual file was empty and no longer is has a visual file that was created.
\<close>

theorem fallback_frame_unchecked_but_visual_file_created:
  "fst (createFallbackFrame e dir i s) = fallbackFile dir i
   \<and> (\<not> ffmpeg e (FallbackFrame (fallbackFile dir i)) \<longrightarrow>
        files (snd (createFallbackFrame e dir i s)) = files s)
   \<and> (Run e a script story outputDir s = (r, script', a', s') \<longrightarrow>
        length (Scenes script') = length (Scenes script)
        \<and> (\<forall>k < length (Scenes script).
              VisualFile (Scenes script ! k) = [] \<and> VisualFile (Scenes script' ! k) \<noteq> []
              \<longrightarrow> VisualFile (Scenes script' ! k) \<in> files s'))"
proof -
  obtain p s1 where c: "createFallbackFrame e dir i s = (p, s1)" by fastforce
  from createFallbackFrame_files [OF c] c
  have 1: "fst (createFallbackFrame e dir i s) = fallbackFile dir i
   \<and> (\<not> ffmpeg e (FallbackFrame (fallbackFile dir i)) \<longrightarrow>
        files (snd (createFallbackFrame e dir i s)) = files s)" by simp
  have 2: "Run e a script story outputDir s = (r, script', a', s') \<longrightarrow>
        length (Scenes script') = length (Scenes script)
        \<and> (\<forall>k < length (Scenes script).
              VisualFile (Scenes script ! k) = [] \<and> VisualFile (Scenes script' ! k) \<noteq> []
              \<longrightarrow> VisualFile (Scenes script' ! k) \<in> files s')"
  proof
    assume ru: "Run e a script story outputDir s = (r, script', a', s')"
    note f = Run_files [OF ru]
    have len: "length (Scenes script') = length (Scenes script)"
      using f by (simp add: list_all2_lengthD)
    have "\<forall>k < length (Scenes script).
              VisualFile (Scenes script ! k) = [] \<and> VisualFile (Scenes script' ! k) \<noteq> []
              \<longrightarrow> VisualFile (Scenes script' ! k) \<in> files s'"
    proof (intro allI impI)
      fix k assume k: "k < length (Scenes script)"
        and v: "VisualFile (Scenes script ! k) = [] \<and> VisualFile (Scenes script' ! k) \<noteq> []"
      from list_all2_nthD [OF f k] v show "VisualFile (Scenes script' ! k) \<in> files s'" by auto
    qed
    with len show "length (Scenes script') = length (Scenes script)
        \<and> (\<forall>k < length (Scenes script).
              VisualFile (Scenes script ! k) = [] \<and> VisualFile (Scenes script' ! k) \<noteq> []
              \<longrightarrow> VisualFile (Scenes script' ! k) \<in> files s')" by simp
  qed
  from 1 2 show ?thesis by simp
qed

lemmas eval_defs = Run_def Let_def resolveScene_def resolveCinematic_def resolveDramatic_def
  resolveProof_def fetchOrFallback_def createFallbackFrame_def Fetch_def downloadImage_def
  prepareImageWithKenBurns_def prepareVideoClip_def addSourceCredit_def runCmd_def
  withDefaultPrompt_def defaultClipPrompt_def defaultProofPrompt_def Pick_def
  filepath_Join_def fallbackFile_def kenburnsFile_def dramaticFile_def creditedFile_def
  cmdOutput_def kenBurnsCommand_def fmt_simps

lemma cinematic_run_error: "fst (Run env0 asm0 scriptCinematic story0 ''out'' sys0) = Some (VisualFallbackFailed 0)"
  by (simp add: eval_defs env0_def asm0_def am0_def scriptCinematic_def sc0_def sys0_def)

lemma cinematic_run_scene: "map VisualFile (Scenes (fst (snd (Run env0 asm0 scriptCinematic story0 ''out'' sys0)))) = [[]]
  \<and> map SceneType (Scenes (fst (snd (Run env0 asm0 scriptCinematic story0 ''out'' sys0)))) = [''dramatic'']
  \<and> commands (snd (snd (snd (Run env0 asm0 scriptCinematic story0 ''out'' sys0)))) = []
  \<and> length (requests (snd (snd (snd (Run env0 asm0 scriptCinematic story0 ''out'' sys0))))) = 3"
  by (simp add: eval_defs env0_def asm0_def am0_def scriptCinematic_def sc0_def sys0_def)

lemma dramatic_run: "fst (Run env0 asm0 scriptDramatic story0 ''out'' sys0) = None
  \<and> map VisualFile (Scenes (fst (snd (Run env0 asm0 scriptDramatic story0 ''out'' sys0))))
      = [''out/visuals/kenburns_000.mp4'']
  \<and> hd (commands (snd (snd (snd (Run env0 asm0 scriptDramatic story0 ''out'' sys0)))))
      = FallbackFrame ''out/visuals/fallback_000.jpg''"
  by (simp add: eval_defs env0_def asm0_def am0_def scriptDramatic_def sc0_def sys0_def)

lemmas chain_defs = chainResult_def step1_def step2_def step3_def step4_def wikiImage_def
  downloadable_def proofFile_def wikiFile_def googleFile_def extractSearchQuery_def keptWords_def
  Fields_def cleanWord_def Trim_def ToLower_def toLowerChar_def filler_def isSpace_def

lemmas fetch_defs = FetchProofImage_def downloadFile_def searchWikipedia_def searchGoogleImages_def


lemma proof_run_types: "map SceneType (Scenes (fst (snd (Run envNoWrite8 asm0 scriptProof story0 ''out'' sys0))))
    = [''proof'', ''dramatic'']"
  by (simp add: eval_defs fetch_defs chain_defs envNoWrite8_def env0_def asm0_def am0_def scriptProof_def
      proofScene0_def proofScene8_def story0_def sys0_def)

lemma proof_run_visuals: "map VisualFile (Scenes (fst (snd (Run envNoWrite8 asm0 scriptProof story0 ''out'' sys0))))
    = [''out/visuals/proof_credited_007.jpg'', ''out/visuals/kenburns_008.mp4'']"
  by (simp add: eval_defs fetch_defs chain_defs envNoWrite8_def env0_def asm0_def am0_def scriptProof_def
      proofScene0_def proofScene8_def story0_def sys0_def)




lemma no_fallback_run:
  "fst (Run envNoFallback asm0 scriptDramatic story0 ''out'' sys0) = Some FfmpegKenBurns
   \<and> map VisualFile (Scenes (fst (snd (Run envNoFallback asm0 scriptDramatic story0 ''out'' sys0)))) = [[]]
   \<and> files (snd (snd (snd (Run envNoFallback asm0 scriptDramatic story0 ''out'' sys0)))) = {}"
  by (simp add: eval_defs envNoFallback_def env0_def asm0_def am0_def scriptDramatic_def sc0_def sys0_def)

lemma dramatic_run_files:
  "files (snd (snd (snd (Run env0 asm0 scriptDramatic story0 ''out'' sys0))))
     = {''out/visuals/fallback_000.jpg'', ''out/visuals/kenburns_000.mp4''}"
  by (simp add: eval_defs env0_def asm0_def am0_def scriptDramatic_def sc0_def sys0_def insert_commute)

text \<open>
  The theorem at a generated-image scene whose image request fails. When every
  subprocess fails, the fallback path is returned though no file exists, the zoom
  transform fails and \<^verbatim>\<open>Run\<close> returns its error; when they succeed, the visual file is the
  output of the zoom transform and exists.
\<close>

theorem fallback_frame_unchecked_but_visual_file_created_witness:
  "\<not> ffmpeg envNoFallback (FallbackFrame (fallbackFile ''out/visuals'' 0))
   \<and> fst (createFallbackFrame envNoFallback ''out/visuals'' 0 sys0) = ''out/visuals/fallback_000.jpg''
   \<and> files (snd (createFallbackFrame envNoFallback ''out/visuals'' 0 sys0)) = {}
   \<and> fst (Run envNoFallback asm0 scriptDramatic story0 ''out'' sys0) = Some FfmpegKenBurns
   \<and> (0::nat) < length (Scenes scriptDramatic)
   \<and> VisualFile (Scenes scriptDramatic ! 0) = []
   \<and> VisualFile (Scenes (fst (snd (Run env0 asm0 scriptDramatic story0 ''out'' sys0))) ! 0) \<noteq> []
   \<and> VisualFile (Scenes (fst (snd (Run env0 asm0 scriptDramatic story0 ''out'' sys0))) ! 0)
       \<in> files (snd (snd (snd (Run env0 asm0 scriptDramatic story0 ''out'' sys0))))"
proof -
  let ?R = "Run env0 asm0 scriptDramatic story0 ''out'' sys0"
  have eq: "?R = (fst ?R, fst (snd ?R), fst (snd (snd ?R)), snd (snd (snd ?R)))"
    by simp
  have n: "\<not> ffmpeg envNoFallback (FallbackFrame (fallbackFile ''out/visuals'' 0))"
    by (simp add: envNoFallback_def)
  have f: "fallbackFile ''out/visuals'' 0 = ''out/visuals/fallback_000.jpg''"
    by (simp add: fallbackFile_def filepath_Join_def fmt_simps)
  have s: "files sys0 = {}" by (simp add: sys0_def)
  have l: "(0::nat) < length (Scenes scriptDramatic)" by (simp add: scriptDramatic_def)
  have v: "VisualFile (Scenes scriptDramatic ! 0) = []"
    by (simp add: scriptDramatic_def sc0_def)
  have v': "VisualFile (Scenes (fst (snd ?R)) ! 0) \<noteq> []"
  proof -
    have "map VisualFile (Scenes (fst (snd ?R))) ! 0 = ''out/visuals/kenburns_000.mp4''"
      using dramatic_run by simp
    moreover have "length (Scenes (fst (snd ?R))) = 1"
      using dramatic_run by (metis length_map length_Cons list.size(3) One_nat_def)
    ultimately show ?thesis by simp
  qed
  note t1 = fallback_frame_unchecked_but_visual_file_created
    [of envNoFallback "''out/visuals''" 0 sys0 asm0 scriptDramatic story0 "''out''"]
  note t2 = fallback_frame_unchecked_but_visual_file_created
    [of env0 "''out/visuals''" 0 sys0 asm0 scriptDramatic story0 "''out''"
        "fst ?R" "fst (snd ?R)" "fst (snd (snd ?R))" "snd (snd (snd ?R))"]
  from t2 eq l v v' have "VisualFile (Scenes (fst (snd ?R)) ! 0) \<in> files (snd (snd (snd ?R)))"
    by blast
  moreover from t1 n f s have "fst (createFallbackFrame envNoFallback ''out/visuals'' 0 sys0)
      = ''out/visuals/fallback_000.jpg''
    \<and> files (snd (createFallbackFrame envNoFallback ''out/visuals'' 0 sys0)) = {}"
    by simp
  ultimately show ?thesis using n no_fallback_run l v v' by simp
qed

text \<open>
  The paths of scenes declared \<^verbatim>\<open>dramatic\<close> or \<^verbatim>\<open>proof\<close>: a failed image generation is
  answered by the fallback frame, and the only error these paths return is that of the
  zoom transform.
\<close>

lemma prepareImageWithKenBurns_error:
  "prepareImageWithKenBurns e cfg img scene dir s = (Inl err, s') \<Longrightarrow> err = FfmpegKenBurns"
  by (auto simp: prepareImageWithKenBurns_def split: prod.splits bool.splits)

lemma fetchOrFallback_fallback:
  assumes "fst (Fetch e scene dir s) = Inl err"
  shows "fst (fetchOrFallback e dir i scene s) = fallbackFile dir i
       \<and> FallbackFrame (fallbackFile dir i) \<in> set (commands (snd (fetchOrFallback e dir i scene s)))"
proof -
  obtain s1 where f: "Fetch e scene dir s = (Inl err, s1)"
    using assms by (metis prod.collapse)
  obtain p s2 where c: "createFallbackFrame e dir i s1 = (p, s2)" by fastforce
  from createFallbackFrame_files [OF c] f c show ?thesis
    by (simp add: fetchOrFallback_def)
qed

lemma resolveDramatic_errors:
  "resolveDramatic e cfg dir i scene am s = (r, scene', am', s') \<Longrightarrow>
     r = None \<or> r = Some FfmpegKenBurns"
  by (auto simp: resolveDramatic_def split: prod.splits sum.splits
      dest!: prepareImageWithKenBurns_error)

lemma resolveProof_errors:
  "resolveProof e cfg story dir i scene am s = (r, scene', am', s') \<Longrightarrow>
     r = None \<or> r = Some FfmpegKenBurns"
  by (auto simp: resolveProof_def Let_def split: prod.splits sum.splits
      dest!: prepareImageWithKenBurns_error)

text \<open>
  Claim C1 at a failing input. A \<^verbatim>\<open>cinematic\<close> scene with an empty clip pool is downgraded
  to \<^verbatim>\<open>dramatic\<close>; when the image generation then fails three times, \<^verbatim>\<open>Run\<close> returns the
  error "visual fallback failed", runs no fallback-frame command and leaves the visual
  file empty. The same failure for a scene declared \<^verbatim>\<open>dramatic\<close> runs the fallback-frame
  command and \<^verbatim>\<open>Run\<close> returns no error.
\<close>

theorem cinematic_downgrade_hard_failure:
  "fst (Run env0 asm0 scriptCinematic story0 ''out'' sys0) = Some (VisualFallbackFailed 0)
   \<and> map VisualFile (Scenes (fst (snd (Run env0 asm0 scriptCinematic story0 ''out'' sys0)))) = [[]]
   \<and> map SceneType (Scenes (fst (snd (Run env0 asm0 scriptCinematic story0 ''out'' sys0))))
       = [''dramatic'']
   \<and> commands (snd (snd (snd (Run env0 asm0 scriptCinematic story0 ''out'' sys0)))) = []
   \<and> fst (Run env0 asm0 scriptDramatic story0 ''out'' sys0) = None
   \<and> map VisualFile (Scenes (fst (snd (Run env0 asm0 scriptDramatic story0 ''out'' sys0))))
       = [''out/visuals/kenburns_000.mp4'']
   \<and> hd (commands (snd (snd (snd (Run env0 asm0 scriptDramatic story0 ''out'' sys0)))))
       = FallbackFrame ''out/visuals/fallback_000.jpg''"
  using cinematic_run_error cinematic_run_scene dramatic_run by simp

end
